theory Spec2Isabelle
  imports Main "HOL-Library.Sublist" "HOL-Library.List_Lexorder"
begin

section \<open>Python values\<close>

text \<open>
  A Python \<^verbatim>\<open>str\<close> is its sequence of code points. The messages of \<^verbatim>\<open>app.py\<close> are
  Chinese text, so a code point is a natural number and not an 8-bit \<^typ>\<open>char\<close>;
  \<open>ascii\<close> embeds an ASCII literal.
\<close>

type_synonym pystr = "nat list"

abbreviation ch :: "char \<Rightarrow> nat" where
  "ch \<equiv> of_char"

definition ascii :: "string \<Rightarrow> pystr" where
  "ascii s = map of_char s"

text \<open>
  What Python takes from the Unicode character database outside ASCII is a parameter of
  the model: whether a code point is alphanumeric (\<^verbatim>\<open>\w\<close> of \<^verbatim>\<open>re\<close>), and its
  upper-case mapping (\<^verbatim>\<open>str.upper\<close>). Inside ASCII both are written out.
\<close>

record ucd =
  uni_alnum :: "nat \<Rightarrow> bool"
  uni_upper :: "nat \<Rightarrow> pystr"

definition no_alnum :: "nat \<Rightarrow> bool" where
  "no_alnum c = False"

definition same_char :: "nat \<Rightarrow> pystr" where
  "same_char c = [c]"

definition ascii_ucd :: ucd where
  "ascii_ucd = \<lparr>uni_alnum = no_alnum, uni_upper = same_char\<rparr>"

definition is_digit :: "nat \<Rightarrow> bool" where
  "is_digit c = (ch CHR ''0'' \<le> c \<and> c \<le> ch CHR ''9'')"

definition is_AZ :: "nat \<Rightarrow> bool" where
  "is_AZ c = (ch CHR ''A'' \<le> c \<and> c \<le> ch CHR ''Z'')"

definition is_az :: "nat \<Rightarrow> bool" where
  "is_az c = (ch CHR ''a'' \<le> c \<and> c \<le> ch CHR ''z'')"

text \<open>\<^verbatim>\<open>\w\<close> on a \<^verbatim>\<open>str\<close> pattern: alphanumeric or underscore.\<close>

definition is_word :: "ucd \<Rightarrow> nat \<Rightarrow> bool" where
  "is_word U c =
     (if c < 128 then is_digit c \<or> is_AZ c \<or> is_az c \<or> c = ch CHR ''_''
      else uni_alnum U c)"

text \<open>\<^verbatim>\<open>str(n)\<close> for an \<^verbatim>\<open>int\<close>: decimal digits, a minus sign when negative.\<close>

fun str_nat :: "nat \<Rightarrow> pystr" where
  "str_nat n = (if n < 10 then [ch CHR ''0'' + n] else str_nat (n div 10) @ [ch CHR ''0'' + n mod 10])"

declare str_nat.simps [simp del]

definition str_int :: "int \<Rightarrow> pystr" where
  "str_int i = (if i < 0 then ch CHR ''-'' # str_nat (nat (- i)) else str_nat (nat i))"

text \<open>
  Exceptions, by the classes the handlers of \<^verbatim>\<open>app.py\<close> tell apart, each with its
  \<^verbatim>\<open>str(e)\<close>. In pytube \<^verbatim>\<open>AgeRestrictedError\<close> is a subclass of \<^verbatim>\<open>VideoUnavailable\<close>;
  \<open>VideoUnavailable\<close> here stands for that class and its other subclasses, and
  \<open>OtherException\<close> for every remaining subclass of \<^verbatim>\<open>Exception\<close>.
\<close>

datatype exn =
    AgeRestrictedError pystr
  | VideoUnavailable pystr
  | ValueError pystr
  | OtherException pystr

fun str_exn :: "exn \<Rightarrow> pystr" where
  "str_exn (AgeRestrictedError m) = m"
| "str_exn (VideoUnavailable m) = m"
| "str_exn (ValueError m) = m"
| "str_exn (OtherException m) = m"

fun is_ValueError :: "exn \<Rightarrow> bool" where
  "is_ValueError (ValueError m) = True"
| "is_ValueError e = False"

section \<open>Global configuration\<close>

definition MAX_VIDEO_DURATION :: int where
  "MAX_VIDEO_DURATION = 3600"

definition ALLOWED_DOMAINS :: "pystr set" where
  "ALLOWED_DOMAINS = {ascii ''youtube.com'', ascii ''youtu.be''}"

section \<open>The URL validator\<close>

text \<open>
  \<^verbatim>\<open>re.search\<close> tries the pattern at every start position from the left, the end of the
  string included, and returns the first match.
\<close>

fun re_search :: "(pystr \<Rightarrow> 'a option) \<Rightarrow> pystr \<Rightarrow> 'a option" where
  "re_search m [] = m []"
| "re_search m (c # s) = (case m (c # s) of Some r \<Rightarrow> Some r | None \<Rightarrow> re_search m s)"

definition strip_prefix :: "pystr \<Rightarrow> pystr \<Rightarrow> pystr option" where
  "strip_prefix p s = (if prefix p s then Some (drop (length p) s) else None)"

text \<open>\<^verbatim>\<open>https?://\<close>: the optional \<^verbatim>\<open>s\<close> is taken first, left out on backtracking.\<close>

definition match_scheme :: "pystr \<Rightarrow> pystr option" where
  "match_scheme s =
     (case strip_prefix (ascii ''http'') s of
        None \<Rightarrow> None
      | Some r \<Rightarrow>
          (case strip_prefix (ascii ''s'') r of
             None \<Rightarrow> strip_prefix (ascii ''://'') r
           | Some r' \<Rightarrow>
               (case strip_prefix (ascii ''://'') r' of
                  Some t \<Rightarrow> Some t
                | None \<Rightarrow> strip_prefix (ascii ''://'') r)))"

text \<open>\<^verbatim>\<open>([^/]+)\<close>: the longest run of characters other than the slash, not empty.\<close>

definition match_host :: "pystr \<Rightarrow> pystr option" where
  "match_host s =
     (let d = takeWhile (\<lambda>c. c \<noteq> ch CHR ''/'') s in if d = [] then None else Some d)"

text \<open>
  \<^verbatim>\<open>https?://(www\.)?([^/]+)\<close> matched at the start of \<open>s\<close>; the result is
  \<^verbatim>\<open>group(2)\<close>. The optional \<^verbatim>\<open>www.\<close> is taken first and given back when no host
  character follows it.
\<close>

definition match_domain_at :: "pystr \<Rightarrow> pystr option" where
  "match_domain_at s =
     (case match_scheme s of
        None \<Rightarrow> None
      | Some r \<Rightarrow>
          (case strip_prefix (ascii ''www.'') r of
             None \<Rightarrow> match_host r
           | Some r' \<Rightarrow>
               (case match_host r' of
                  Some d \<Rightarrow> Some d
                | None \<Rightarrow> match_host r)))"

definition is_id_char :: "nat \<Rightarrow> bool" where
  "is_id_char c =
     (is_digit c \<or> is_AZ c \<or> is_az c \<or> c = ch CHR ''_'' \<or> c = ch CHR ''-'')"

text \<open>\<^verbatim>\<open>([0-9A-Za-z_-]{11})\<close> at the start of \<open>s\<close>.\<close>

definition match_id_chars :: "pystr \<Rightarrow> pystr option" where
  "match_id_chars s =
     (if 11 \<le> length s \<and> list_all is_id_char (take 11 s) then Some (take 11 s) else None)"

text \<open>\<^verbatim>\<open>(?:v=|\/)([0-9A-Za-z_-]{11})\<close> at the start of \<open>s\<close>: the alternatives in order.\<close>

definition match_video_id_at :: "pystr \<Rightarrow> pystr option" where
  "match_video_id_at s =
     (case (case strip_prefix (ascii ''v='') s of
              None \<Rightarrow> None
            | Some r \<Rightarrow> match_id_chars r) of
        Some i \<Rightarrow> Some i
      | None \<Rightarrow>
          (case strip_prefix (ascii ''/'') s of
             None \<Rightarrow> None
           | Some r \<Rightarrow> match_id_chars r))"

text \<open>
  The body of the \<^verbatim>\<open>try\<close>: \<^verbatim>\<open>.group(2)\<close> on the \<^verbatim>\<open>None\<close> of a failed search raises
  \<^verbatim>\<open>AttributeError\<close>, with the message below (\<open>0x27\<close> is the apostrophe).
\<close>

definition msg_no_group :: pystr where
  "msg_no_group =
     [0x27] @ ascii ''NoneType'' @ [0x27] @ ascii '' object has no attribute ''
       @ [0x27] @ ascii ''group'' @ [0x27]"

definition is_valid_youtube_url_try :: "pystr \<Rightarrow> exn + bool" where
  "is_valid_youtube_url_try url =
     (case re_search match_domain_at url of
        None \<Rightarrow> Inl (OtherException msg_no_group)
      | Some domain \<Rightarrow>
          if domain \<notin> ALLOWED_DOMAINS \<and> \<not> (\<exists>d \<in> ALLOWED_DOMAINS. suffix d domain)
          then Inr False
          else Inr (re_search match_video_id_at url \<noteq> None))"

text \<open>The bare \<^verbatim>\<open>except\<close> turns every exception into \<^verbatim>\<open>False\<close>.\<close>

definition is_valid_youtube_url :: "pystr \<Rightarrow> bool" where
  "is_valid_youtube_url url =
     (case is_valid_youtube_url_try url of Inr b \<Rightarrow> b | Inl e \<Rightarrow> False)"

section \<open>File names\<close>

text \<open>
  \<^verbatim>\<open>re.sub(r'[^\w\-_. ]', '', title)\<close>: every character matched by the negated class is
  replaced by the empty string, the others are copied.
\<close>

definition is_safe_char :: "ucd \<Rightarrow> nat \<Rightarrow> bool" where
  "is_safe_char U c =
     (is_word U c \<or> c = ch CHR ''-'' \<or> c = ch CHR ''_'' \<or> c = ch CHR ''.'' \<or> c = ch CHR '' '')"

fun safe_title :: "ucd \<Rightarrow> pystr \<Rightarrow> pystr" where
  "safe_title U [] = []"
| "safe_title U (c # s) = (if \<not> is_safe_char U c then safe_title U s else c # safe_title U s)"

text \<open>An f-string formats a resolution of \<^verbatim>\<open>None\<close> as \<^verbatim>\<open>None\<close>.\<close>

definition str_opt :: "pystr option \<Rightarrow> pystr" where
  "str_opt r = (case r of None \<Rightarrow> ascii ''None'' | Some s \<Rightarrow> s)"

definition filename_of :: "ucd \<Rightarrow> pystr \<Rightarrow> pystr option \<Rightarrow> pystr" where
  "filename_of U title res = safe_title U title @ ascii ''_'' @ str_opt res @ ascii ''.mp4''"

section \<open>Messages\<close>

text \<open>
  The literals of \<^verbatim>\<open>app.py\<close>, as code points. In English: "video duration exceeds the
  limit (" and "minutes)"; "this video is age-restricted and cannot be downloaded";
  "video unavailable or deleted"; "failed to get video info: "; "error processing video: ";
  "invalid video resolution"; "video stream processing failed: "; "missing video ID
  parameter"; "API error: "; "internal server error"; "missing required parameters";
  "download API error: ".
\<close>

definition msg_duration_head :: pystr where
  "msg_duration_head = [0x89C6, 0x9891, 0x65F6, 0x957F, 0x8D85, 0x8FC7, 0x9650, 0x5236, 0x28]"

definition msg_duration_tail :: pystr where
  "msg_duration_tail = [0x5206, 0x949F, 0x29]"

definition msg_duration :: pystr where
  "msg_duration = msg_duration_head @ str_int (MAX_VIDEO_DURATION div 60) @ msg_duration_tail"

definition msg_age_restricted :: pystr where
  "msg_age_restricted = [0x8BE5, 0x89C6, 0x9891, 0x53D7, 0x5E74, 0x9F84, 0x9650, 0x5236, 0xFF0C, 0x65E0, 0x6CD5, 0x4E0B, 0x8F7D]"

definition msg_unavailable :: pystr where
  "msg_unavailable = [0x89C6, 0x9891, 0x4E0D, 0x53EF, 0x7528, 0x6216, 0x5DF2, 0x88AB, 0x5220, 0x9664]"

definition log_info_failed :: pystr where
  "log_info_failed = [0x83B7, 0x53D6, 0x89C6, 0x9891, 0x4FE1, 0x606F, 0x5931, 0x8D25, 0x3A, 0x20]"

definition msg_processing :: pystr where
  "msg_processing = [0x5904, 0x7406, 0x89C6, 0x9891, 0x65F6, 0x51FA, 0x9519, 0x3A, 0x20]"

definition msg_invalid_resolution :: pystr where
  "msg_invalid_resolution = [0x65E0, 0x6548, 0x7684, 0x89C6, 0x9891, 0x5206, 0x8FA8, 0x7387]"

definition log_stream_failed :: pystr where
  "log_stream_failed = [0x89C6, 0x9891, 0x6D41, 0x5904, 0x7406, 0x5931, 0x8D25, 0x3A, 0x20]"

definition msg_missing_video_id :: pystr where
  "msg_missing_video_id = [0x7F3A, 0x5C11, 0x89C6, 0x9891, 0x49, 0x44, 0x53C2, 0x6570]"

definition log_api_error :: pystr where
  "log_api_error = [0x41, 0x50, 0x49, 0x9519, 0x8BEF, 0x3A, 0x20]"

definition msg_internal :: pystr where
  "msg_internal = [0x670D, 0x52A1, 0x5668, 0x5185, 0x90E8, 0x9519, 0x8BEF]"

definition msg_missing_params :: pystr where
  "msg_missing_params = [0x7F3A, 0x5C11, 0x5FC5, 0x8981, 0x53C2, 0x6570]"

definition log_download_error :: pystr where
  "log_download_error = [0x4E0B, 0x8F7D, 0x41, 0x50, 0x49, 0x9519, 0x8BEF, 0x3A, 0x20]"

section \<open>The extractor\<close>

text \<open>
  pytube is not part of the repository. What it answers for a video is data of the model:
  a \<open>youtube\<close> object holds the outcome of each attribute \<^verbatim>\<open>app.py\<close> reads, an exception
  or a value, and \<open>yt_get_by_itag\<close> is the outcome of \<^verbatim>\<open>yt.streams.get_by_itag(itag)\<close>
  for each handle. A stream's \<open>filesize\<close> is fetched over the network and may raise;
  \<open>content\<close> is what \<^verbatim>\<open>stream_to_buffer\<close> writes.
\<close>

record stream =
  itag :: int
  resolution :: "pystr option"
  filesize :: "exn + int"
  fps :: int
  mime_type :: pystr
  is_progressive :: bool
  content :: "exn + char list"

record youtube =
  yt_length :: "exn + int"
  yt_streams :: "exn + stream list"
  yt_get_by_itag :: "pystr \<Rightarrow> exn + stream option"
  yt_title :: "exn + pystr"
  yt_author :: "exn + pystr"
  yt_thumbnail_url :: "exn + pystr"

record env =
  unicode :: ucd
  YouTube :: "pystr \<Rightarrow> exn + youtube"

text \<open>
  The effects outside the return value: the lines given to \<^verbatim>\<open>logger.error\<close>, the URLs
  given to \<^verbatim>\<open>YouTube(...)\<close>, and the number of \<^verbatim>\<open>io.BytesIO\<close> objects created.
\<close>

record world =
  log :: "pystr list"
  fetched :: "pystr list"
  buffers :: nat

definition bind_exn :: "exn + 'a \<Rightarrow> ('a \<Rightarrow> exn + 'b) \<Rightarrow> exn + 'b" where
  "bind_exn r f = (case r of Inl e \<Rightarrow> Inl e | Inr x \<Rightarrow> f x)"

definition watch_url :: "pystr \<Rightarrow> pystr" where
  "watch_url video_id = ascii ''https://www.youtube.com/watch?v='' @ video_id"

text \<open>\<^verbatim>\<open>s.split(sep)\<close> for a separator of one character.\<close>

fun split_on :: "nat \<Rightarrow> pystr \<Rightarrow> pystr list" where
  "split_on sep [] = [[]]"
| "split_on sep (c # s) =
     (if c = sep then [] # split_on sep s
      else (case split_on sep s of [] \<Rightarrow> [[c]] | p # ps \<Rightarrow> (c # p) # ps))"

definition upper_char :: "ucd \<Rightarrow> nat \<Rightarrow> pystr" where
  "upper_char U c =
     (if is_az c then [c - 32] else if c < 128 then [c] else uni_upper U c)"

definition upper :: "ucd \<Rightarrow> pystr \<Rightarrow> pystr" where
  "upper U s = concat (map (upper_char U) s)"

text \<open>
  pytube's stream query, the chain
  \<^verbatim>\<open>filter(file_extension='mp4', progressive=True).order_by('resolution').desc()\<close>, is not
  among the sources. The spec says of it: only progressive streams, restricted to the MP4
  container; sorted by resolution descending, compared by numeric height where parseable,
  else by the adapter's native ordering. The definitions below follow these words.
\<close>

text \<open>
  Modelled from the spec: the missing test for the MP4 container. The container is the
  subtype of the MIME type, the part after its only slash.
\<close>

definition is_mp4 :: "stream \<Rightarrow> bool" where
  "is_mp4 s =
     (case split_on (ch CHR ''/'') (mime_type s) of
        [t, sub] \<Rightarrow> sub = ascii ''mp4''
      | _ \<Rightarrow> False)"

text \<open>
  Modelled from the spec: the missing \<^verbatim>\<open>filter(file_extension='mp4', progressive=True)\<close>.
\<close>

definition filter_progressive_mp4 :: "stream list \<Rightarrow> stream list" where
  "filter_progressive_mp4 ss = filter (\<lambda>s. is_mp4 s \<and> is_progressive s) ss"

text \<open>
  Modelled from the spec: the missing parse of a resolution label as a numeric height, the
  number written by the decimal digits of the label; a label without a digit and a
  missing label are not parseable.
\<close>

definition nat_of_digits :: "pystr \<Rightarrow> nat" where
  "nat_of_digits ds = foldl (\<lambda>a d. 10 * a + (d - ch CHR ''0'')) 0 ds"

definition height_of :: "pystr option \<Rightarrow> nat option" where
  "height_of r =
     (case r of
        None \<Rightarrow> None
      | Some l \<Rightarrow> if filter is_digit l = [] then None else Some (nat_of_digits (filter is_digit l)))"

definition height_key :: "pystr option \<Rightarrow> nat" where
  "height_key r = (case height_of r of None \<Rightarrow> 0 | Some h \<Rightarrow> h)"

text \<open>
  Modelled from the spec: the missing \<^verbatim>\<open>order_by('resolution')\<close>. Streams without a
  resolution are left out; the others are sorted ascending and stably by height when every
  height is parseable, else by the native ordering, that of the labels as strings.
\<close>

definition order_by_resolution :: "stream list \<Rightarrow> stream list" where
  "order_by_resolution ss =
     (let has = filter (\<lambda>s. resolution s \<noteq> None) ss in
      if list_all (\<lambda>s. height_of (resolution s) \<noteq> None) has
      then sort_key (\<lambda>s. height_key (resolution s)) has
      else sort_key (\<lambda>s. str_opt (resolution s)) has)"

text \<open>Modelled from the spec: the missing \<^verbatim>\<open>desc()\<close>, which reverses the order.\<close>

definition desc :: "stream list \<Rightarrow> stream list" where
  "desc ss = rev ss"

section \<open>The metadata responder\<close>

record descriptor =
  d_itag :: int
  d_resolution :: "pystr option"
  d_filesize :: int
  d_fps :: int
  d_type :: pystr

record video_metadata =
  title :: pystr
  author :: pystr
  duration :: int
  thumbnail_url :: pystr
  streams :: "descriptor list"


text \<open>\<^verbatim>\<open>stream.mime_type.split('/')[1].upper()\<close>; the index raises on a list of one.\<close>

definition mime_label :: "ucd \<Rightarrow> pystr \<Rightarrow> exn + pystr" where
  "mime_label U m =
     (case split_on (ch CHR ''/'') m of
        a # b # rest \<Rightarrow> Inr (upper U b)
      | _ \<Rightarrow> Inl (OtherException (ascii ''list index out of range'')))"

definition format_stream :: "ucd \<Rightarrow> stream \<Rightarrow> exn + descriptor" where
  "format_stream U s =
     bind_exn (filesize s) (\<lambda>fsize.
     bind_exn (mime_label U (mime_type s)) (\<lambda>label.
       Inr \<lparr>d_itag = itag s, d_resolution = resolution s, d_filesize = fsize,
            d_fps = fps s, d_type = label\<rparr>))"

text \<open>The \<^verbatim>\<open>for\<close> loop: the first stream that raises ends it.\<close>

fun format_streams :: "ucd \<Rightarrow> stream list \<Rightarrow> exn + descriptor list" where
  "format_streams U [] = Inr []"
| "format_streams U (s # ss) =
     bind_exn (format_stream U s) (\<lambda>d.
     bind_exn (format_streams U ss) (\<lambda>ds. Inr (d # ds)))"

text \<open>The body of the \<^verbatim>\<open>try\<close> of \<^verbatim>\<open>get_video_info\<close>, after \<^verbatim>\<open>YouTube(...)\<close> returned.\<close>

definition video_info_of :: "ucd \<Rightarrow> youtube \<Rightarrow> exn + video_metadata" where
  "video_info_of U yt =
     bind_exn (yt_length yt) (\<lambda>len.
       if len > MAX_VIDEO_DURATION then Inl (ValueError msg_duration)
       else
         bind_exn (yt_streams yt) (\<lambda>ss.
         bind_exn (format_streams U (desc (order_by_resolution (filter_progressive_mp4 ss)))) (\<lambda>ds.
         bind_exn (yt_title yt) (\<lambda>t.
         bind_exn (yt_author yt) (\<lambda>a.
         bind_exn (yt_length yt) (\<lambda>len'.
         bind_exn (yt_thumbnail_url yt) (\<lambda>th.
           Inr \<lparr>title = t, author = a, duration = len', thumbnail_url = th,
                streams = ds\<rparr>)))))))"

definition get_video_info_try :: "env \<Rightarrow> pystr \<Rightarrow> exn + video_metadata" where
  "get_video_info_try E video_id =
     bind_exn (YouTube E (watch_url video_id)) (video_info_of (unicode E))"

text \<open>The \<^verbatim>\<open>except\<close> clauses of \<^verbatim>\<open>get_video_info\<close>, in their order.\<close>

fun get_video_info_except :: "exn \<Rightarrow> world \<Rightarrow> (exn + video_metadata) \<times> world" where
  "get_video_info_except (AgeRestrictedError m) w = (Inl (ValueError msg_age_restricted), w)"
| "get_video_info_except (VideoUnavailable m) w = (Inl (ValueError msg_unavailable), w)"
| "get_video_info_except e w =
     (Inl (ValueError (msg_processing @ str_exn e)),
      w\<lparr>log := log w @ [log_info_failed @ str_exn e]\<rparr>)"

definition get_video_info :: "env \<Rightarrow> pystr \<Rightarrow> world \<Rightarrow> (exn + video_metadata) \<times> world" where
  "get_video_info E video_id w =
     (let w' = w\<lparr>fetched := fetched w @ [watch_url video_id]\<rparr> in
      case get_video_info_try E video_id of
        Inr info \<Rightarrow> (Inr info, w')
      | Inl e \<Rightarrow> get_video_info_except e w')"

section \<open>The download streamer\<close>

text \<open>
  An \<^verbatim>\<open>io.BytesIO\<close>: its bytes, the read position, and how often \<^verbatim>\<open>close()\<close> was
  called on it.
\<close>

record bytesio =
  buf :: "char list"
  pos :: nat
  close_calls :: nat

text \<open>
  The body of the \<^verbatim>\<open>try\<close> of \<^verbatim>\<open>stream_video\<close>, after \<^verbatim>\<open>YouTube(...)\<close> returned. The
  buffer is created after the lookup and the file name; \<^verbatim>\<open>stream_to_buffer\<close> leaves the
  position at the end and \<^verbatim>\<open>seek(0)\<close> resets it.
\<close>

definition open_stream ::
  "ucd \<Rightarrow> youtube \<Rightarrow> pystr \<Rightarrow> world \<Rightarrow> (exn + bytesio \<times> pystr \<times> int) \<times> world" where
  "open_stream U yt itag_arg w =
     (case yt_get_by_itag yt itag_arg of
        Inl e \<Rightarrow> (Inl e, w)
      | Inr None \<Rightarrow> (Inl (ValueError msg_invalid_resolution), w)
      | Inr (Some stream) \<Rightarrow>
          (case yt_title yt of
             Inl e \<Rightarrow> (Inl e, w)
           | Inr t \<Rightarrow>
               (let filename = filename_of U t (resolution stream);
                    w' = w\<lparr>buffers := Suc (buffers w)\<rparr>
                in case content stream of
                     Inl e \<Rightarrow> (Inl e, w')
                   | Inr bytes \<Rightarrow>
                       (case filesize stream of
                          Inl e \<Rightarrow> (Inl e, w')
                        | Inr fsize \<Rightarrow>
                            (Inr (\<lparr>buf = bytes, pos = 0, close_calls = 0\<rparr>, filename, fsize),
                             w')))))"

definition stream_video_try ::
  "env \<Rightarrow> pystr \<Rightarrow> pystr \<Rightarrow> world \<Rightarrow> (exn + bytesio \<times> pystr \<times> int) \<times> world" where
  "stream_video_try E video_id itag_arg w =
     (case YouTube E (watch_url video_id) of
        Inl e \<Rightarrow> (Inl e, w)
      | Inr yt \<Rightarrow> open_stream (unicode E) yt itag_arg w)"

text \<open>The only \<^verbatim>\<open>except\<close> clause of \<^verbatim>\<open>stream_video\<close>.\<close>

definition stream_video_except ::
  "exn \<Rightarrow> world \<Rightarrow> (exn + bytesio \<times> pystr \<times> int) \<times> world" where
  "stream_video_except e w =
     (Inl (ValueError (msg_processing @ str_exn e)),
      w\<lparr>log := log w @ [log_stream_failed @ str_exn e]\<rparr>)"

definition stream_video ::
  "env \<Rightarrow> pystr \<Rightarrow> pystr \<Rightarrow> world \<Rightarrow> (exn + bytesio \<times> pystr \<times> int) \<times> world" where
  "stream_video E video_id itag_arg w =
     (case stream_video_try E video_id itag_arg (w\<lparr>fetched := fetched w @ [watch_url video_id]\<rparr>) of
        (Inr r, w') \<Rightarrow> (Inr r, w')
      | (Inl e, w') \<Rightarrow> stream_video_except e w')"

section \<open>The response generator\<close>

definition chunk_size :: nat where
  "chunk_size = 1024 * 1024"

datatype gen_status = Created | Suspended | Finished

record generator =
  byte_stream :: bytesio
  gen_status :: gen_status

text \<open>
  \<^verbatim>\<open>next\<close> on the generator of \<^verbatim>\<open>generate()\<close>: it runs to the next \<^verbatim>\<open>yield\<close>, or past the
  loop to \<^verbatim>\<open>byte_stream.close()\<close> and ends. A finished generator only raises
  \<^verbatim>\<open>StopIteration\<close> again; \<open>None\<close> is that exception.
\<close>

definition gen_next :: "generator \<Rightarrow> char list option \<times> generator" where
  "gen_next g =
     (if gen_status g = Finished then (None, g)
      else
        (let b = byte_stream g;
             chunk = take chunk_size (drop (pos b) (buf b))
         in if chunk = []
            then (None, g\<lparr>byte_stream := b\<lparr>close_calls := Suc (close_calls b)\<rparr>,
                          gen_status := Finished\<rparr>)
            else (Some chunk, g\<lparr>byte_stream := b\<lparr>pos := pos b + length chunk\<rparr>,
                                gen_status := Suspended\<rparr>)))"

text \<open>
  \<^verbatim>\<open>close\<close> on the generator, as the server calls it when the response ends or the client
  is gone: \<^verbatim>\<open>GeneratorExit\<close> is raised at the \<^verbatim>\<open>yield\<close> where the generator waits.
  \<^verbatim>\<open>generate()\<close> has no \<^verbatim>\<open>try\<close> around the loop, so nothing after the \<^verbatim>\<open>yield\<close> runs.
\<close>

definition gen_close :: "generator \<Rightarrow> generator" where
  "gen_close g = g\<lparr>gen_status := Finished\<rparr>"

text \<open>What is left to read, for the termination of the loop below.\<close>

definition unread :: "generator \<Rightarrow> nat" where
  "unread g =
     (if gen_status g = Finished then 0
      else Suc (length (buf (byte_stream g)) - pos (byte_stream g)))"

text \<open>The caller reads until the generator ends.\<close>

function drain :: "generator \<Rightarrow> char list list \<times> generator" where
  "drain g =
     (case gen_next g of
        (None, g') \<Rightarrow> ([], g')
      | (Some c, g') \<Rightarrow> (case drain g' of (cs, g'') \<Rightarrow> (c # cs, g'')))"
  by pat_completeness auto

termination drain
proof (relation "measure unread")
  show "wf (measure unread)"
    by simp
next
  fix g x1 x2 c
  assume "(x1, x2) = gen_next g" and "x1 = Some c"
  then show "(x2, g) \<in> measure unread"
    by (auto simp: unread_def gen_next_def Let_def split: if_splits)
qed

declare drain.simps [simp del]

text \<open>
  The server sends the response: it reads at most \<open>n\<close> chunks, all of them when the
  generator ends before, and then closes the generator.
\<close>

fun transmit :: "nat \<Rightarrow> generator \<Rightarrow> char list list \<times> generator" where
  "transmit 0 g = ([], gen_close g)"
| "transmit (Suc n) g =
     (case gen_next g of
        (None, g') \<Rightarrow> ([], gen_close g')
      | (Some c, g') \<Rightarrow> (case transmit n g' of (cs, g'') \<Rightarrow> (c # cs, g'')))"

section \<open>The HTTP surface\<close>

record request =
  args :: "(pystr \<times> pystr) list"

text \<open>\<^verbatim>\<open>request.args.get(name)\<close>: the first value of the parameter, or \<^verbatim>\<open>None\<close>.\<close>

definition args_get :: "request \<Rightarrow> pystr \<Rightarrow> pystr option" where
  "args_get req name = map_of (args req) name"

text \<open>\<^verbatim>\<open>not v\<close> for an optional string: \<^verbatim>\<open>None\<close> and the empty string are false.\<close>

definition falsy :: "pystr option \<Rightarrow> bool" where
  "falsy v = (case v of None \<Rightarrow> True | Some s \<Rightarrow> s = [])"

datatype body =
    Json_error pystr
  | Json_info video_metadata
  | Streamed generator

record response =
  status :: nat
  headers :: "(pystr \<times> pystr) list"
  body :: body

text \<open>
  \<^verbatim>\<open>jsonify(...)\<close>, with the status the handler returns beside it. Of the headers of a
  JSON response only the content type is kept; the \<^verbatim>\<open>Content-Length\<close> that the framework
  computes from the serialised body is not modelled, and nothing below speaks of the
  headers of a JSON response.
\<close>

definition jsonify_error :: "pystr \<Rightarrow> nat \<Rightarrow> response" where
  "jsonify_error m code =
     \<lparr>status = code, headers = [(ascii ''Content-Type'', ascii ''application/json'')],
      body = Json_error m\<rparr>"

definition jsonify_info :: "video_metadata \<Rightarrow> response" where
  "jsonify_info info =
     \<lparr>status = 200, headers = [(ascii ''Content-Type'', ascii ''application/json'')],
      body = Json_info info\<rparr>"

text \<open>
  \<^verbatim>\<open>response.headers[name] = value\<close>: replaces the header, or adds it at the end. The
  header object of the framework refuses a value with a carriage return or a line feed and
  raises \<^verbatim>\<open>ValueError\<close>, with the message below.
\<close>

definition has_line_break :: "pystr \<Rightarrow> bool" where
  "has_line_break v = (ch CHR 0x0A \<in> set v \<or> ch CHR 0x0D \<in> set v)"

definition msg_header_newline :: pystr where
  "msg_header_newline = ascii ''Header values must not contain newline characters.''"

definition set_header :: "pystr \<Rightarrow> pystr \<Rightarrow> response \<Rightarrow> exn + response" where
  "set_header name v r =
     (if has_line_break v then Inl (ValueError msg_header_newline)
      else
        Inr (r\<lparr>headers :=
               (if name \<in> fst ` set (headers r)
                then map (\<lambda>(k, x). if k = name then (k, v) else (k, x)) (headers r)
                else headers r @ [(name, v)])\<rparr>))"

text \<open>The \<^verbatim>\<open>except\<close> clauses of \<^verbatim>\<open>video_info\<close>.\<close>

fun video_info_except :: "exn \<Rightarrow> world \<Rightarrow> response \<times> world" where
  "video_info_except (ValueError m) w = (jsonify_error m 400, w)"
| "video_info_except e w =
     (jsonify_error msg_internal 500, w\<lparr>log := log w @ [log_api_error @ str_exn e]\<rparr>)"

definition video_info :: "env \<Rightarrow> request \<Rightarrow> world \<Rightarrow> response \<times> world" where
  "video_info E req w =
     (let video_id = args_get req (ascii ''video_id'') in
      if falsy video_id then (jsonify_error msg_missing_video_id 400, w)
      else
        (case video_id of
           None \<Rightarrow> (jsonify_error msg_missing_video_id 400, w)
         | Some v \<Rightarrow>
             (case get_video_info E v w of
                (Inr info, w') \<Rightarrow> (jsonify_info info, w')
              | (Inl e, w') \<Rightarrow> video_info_except e w')))"

text \<open>
  \<^verbatim>\<open>video_info\<close> with the call of \<^verbatim>\<open>get_video_info\<close> left open: the same handler around
  any callee. \<open>get_video_info\<close> itself lets no exception but \<^verbatim>\<open>ValueError\<close> through, so
  the last \<^verbatim>\<open>except\<close> clause of the handler can only be spoken of for a callee that does.
\<close>

definition video_info_with ::
  "(pystr \<Rightarrow> world \<Rightarrow> (exn + video_metadata) \<times> world) \<Rightarrow> request \<Rightarrow> world \<Rightarrow> response \<times> world" where
  "video_info_with callee req w =
     (let video_id = args_get req (ascii ''video_id'') in
      if falsy video_id then (jsonify_error msg_missing_video_id 400, w)
      else
        (case video_id of
           None \<Rightarrow> (jsonify_error msg_missing_video_id 400, w)
         | Some v \<Rightarrow>
             (case callee v w of
                (Inr info, w') \<Rightarrow> (jsonify_info info, w')
              | (Inl e, w') \<Rightarrow> video_info_except e w')))"

text \<open>The \<^verbatim>\<open>except\<close> clauses of \<^verbatim>\<open>download\<close>.\<close>

fun download_except :: "exn \<Rightarrow> world \<Rightarrow> response \<times> world" where
  "download_except (ValueError m) w = (jsonify_error m 400, w)"
| "download_except e w =
     (jsonify_error msg_internal 500, w\<lparr>log := log w @ [log_download_error @ str_exn e]\<rparr>)"

text \<open>
  \<^verbatim>\<open>Response(generate(), mimetype="video/mp4")\<close> with the three headers set after it. The
  generator has not run when the handler returns.
\<close>

definition download_response :: "bytesio \<Rightarrow> pystr \<Rightarrow> int \<Rightarrow> exn + response" where
  "download_response b filename file_size =
     bind_exn
       (set_header (ascii ''Content-Disposition'') (ascii ''attachment; filename='' @ filename)
          \<lparr>status = 200, headers = [(ascii ''Content-Type'', ascii ''video/mp4'')],
           body = Streamed \<lparr>byte_stream = b, gen_status = Created\<rparr>\<rparr>) (\<lambda>r.
     bind_exn (set_header (ascii ''Content-Length'') (str_int file_size) r) (\<lambda>r.
       set_header (ascii ''Accept-Ranges'') (ascii ''bytes'') r))"

definition download :: "env \<Rightarrow> request \<Rightarrow> world \<Rightarrow> response \<times> world" where
  "download E req w =
     (let video_id = args_get req (ascii ''video_id'');
          itag_arg = args_get req (ascii ''resolution'')
      in if falsy video_id \<or> falsy itag_arg then (jsonify_error msg_missing_params 400, w)
         else
           (case (video_id, itag_arg) of
              (Some v, Some i) \<Rightarrow>
                (case stream_video E v i w of
                   (Inr (b, filename, file_size), w') \<Rightarrow>
                     (case download_response b filename file_size of
                        Inr r \<Rightarrow> (r, w')
                      | Inl e \<Rightarrow> download_except e w')
                 | (Inl e, w') \<Rightarrow> download_except e w')
            | _ \<Rightarrow> (jsonify_error msg_missing_params 400, w)))"

section \<open>A concrete video\<close>

text \<open>
  An extractor that answers every video id with the same video of two progressive MP4
  streams, for running the definitions on concrete inputs. Its duration is a parameter.
\<close>

definition stream_720 :: stream where
  "stream_720 =
     \<lparr>itag = 22, resolution = Some (ascii ''720p''), filesize = Inr 3, fps = 30,
      mime_type = ascii ''video/mp4'', is_progressive = True, content = Inr ''abc''\<rparr>"

definition stream_360 :: stream where
  "stream_360 =
     \<lparr>itag = 18, resolution = Some (ascii ''360p''), filesize = Inr 2, fps = 30,
      mime_type = ascii ''video/mp4'', is_progressive = True, content = Inr ''de''\<rparr>"

definition demo_get_by_itag :: "pystr \<Rightarrow> exn + stream option" where
  "demo_get_by_itag i =
     (if i = ascii ''22'' then Inr (Some stream_720)
      else if i = ascii ''18'' then Inr (Some stream_360)
      else Inr None)"

definition demo_youtube :: "int \<Rightarrow> youtube" where
  "demo_youtube n =
     \<lparr>yt_length = Inr n, yt_streams = Inr [stream_360, stream_720],
      yt_get_by_itag = demo_get_by_itag, yt_title = Inr (ascii ''Foo: Bar/Baz''),
      yt_author = Inr (ascii ''Foo''), yt_thumbnail_url = Inr (ascii ''https://i.ytimg.com/vi/a.jpg'')\<rparr>"

definition demo_YouTube :: "int \<Rightarrow> pystr \<Rightarrow> exn + youtube" where
  "demo_YouTube n url = Inr (demo_youtube n)"

definition demo_env :: "int \<Rightarrow> env" where
  "demo_env n = \<lparr>unicode = ascii_ucd, YouTube = demo_YouTube n\<rparr>"

definition w0 :: world where
  "w0 = \<lparr>log = [], fetched = [], buffers = 0\<rparr>"

definition demo_id :: pystr where
  "demo_id = ascii ''dQw4w9WgXcQ''"

definition demo_request :: "pystr \<Rightarrow> request" where
  "demo_request i = \<lparr>args = [(ascii ''video_id'', demo_id), (ascii ''resolution'', i)]\<rparr>"

definition demo_generator :: generator where
  "demo_generator =
     \<lparr>byte_stream = \<lparr>buf = ''abc'', pos = 0, close_calls = 0\<rparr>, gen_status = Created\<rparr>"












text \<open>A callee that raises a given exception.\<close>

definition raising :: "exn \<Rightarrow> pystr \<Rightarrow> world \<Rightarrow> (exn + video_metadata) \<times> world" where
  "raising e v w = (Inl e, w)"

section \<open>Properties\<close>

subsection \<open>Shared facts\<close>

lemmas char_defs = is_digit_def is_AZ_def is_az_def is_word_def is_safe_char_def is_id_char_def

lemma msg_processing_prefix: "msg_processing @ m \<noteq> m"
  by (simp add: msg_processing_def)

lemma get_video_info_over:
  assumes "YouTube E (watch_url v) = Inr yt" and "yt_length yt = Inr n" and "MAX_VIDEO_DURATION < n"
  shows "get_video_info E v w =
     (Inl (ValueError (msg_processing @ msg_duration)),
      w\<lparr>fetched := fetched w @ [watch_url v], log := log w @ [log_info_failed @ msg_duration]\<rparr>)"
  using assms
  by (simp add: get_video_info_def get_video_info_try_def video_info_of_def bind_exn_def Let_def)

lemma stream_video_no_stream:
  assumes "YouTube E (watch_url v) = Inr yt" and "yt_get_by_itag yt i = Inr None"
  shows "stream_video E v i w =
     (Inl (ValueError (msg_processing @ msg_invalid_resolution)),
      w\<lparr>fetched := fetched w @ [watch_url v],
        log := log w @ [log_stream_failed @ msg_invalid_resolution]\<rparr>)"
  using assms
  by (simp add: stream_video_def stream_video_try_def open_stream_def stream_video_except_def)

lemma get_video_info_except_ValueError:
  "\<exists>m. fst (get_video_info_except e w) = Inl (ValueError m)"
  by (cases e) simp_all

lemma get_video_info_raises_ValueError:
  assumes "fst (get_video_info E v w) = Inl e"
  shows "\<exists>m. e = ValueError m"
proof (cases "get_video_info_try E v")
  case (Inl x)
  then have "fst (get_video_info E v w) =
      fst (get_video_info_except x (w\<lparr>fetched := fetched w @ [watch_url v]\<rparr>))"
    by (simp add: get_video_info_def Let_def)
  with assms get_video_info_except_ValueError [of x] show ?thesis
    by (metis sum.inject(1))
next
  case (Inr info)
  with assms show ?thesis
    by (simp add: get_video_info_def Let_def)
qed

lemma video_info_missing:
  assumes "falsy (args_get req (ascii ''video_id''))"
  shows "video_info E req w = (jsonify_error msg_missing_video_id 400, w)"
  using assms by (simp add: video_info_def Let_def)

lemma video_info_present:
  assumes "args_get req (ascii ''video_id'') = Some v" and "v \<noteq> []"
  shows "video_info E req w =
     (case get_video_info E v w of
        (Inr info, w') \<Rightarrow> (jsonify_info info, w')
      | (Inl e, w') \<Rightarrow> video_info_except e w')"
  using assms by (simp add: video_info_def Let_def falsy_def)

lemma download_missing:
  assumes "falsy (args_get req (ascii ''video_id'')) \<or> falsy (args_get req (ascii ''resolution''))"
  shows "download E req w = (jsonify_error msg_missing_params 400, w)"
  using assms by (auto simp: download_def Let_def)

lemma download_present:
  assumes "args_get req (ascii ''video_id'') = Some v" and "v \<noteq> []"
    and "args_get req (ascii ''resolution'') = Some i" and "i \<noteq> []"
  shows "download E req w =
     (case stream_video E v i w of
        (Inr (b, filename, file_size), w') \<Rightarrow>
          (case download_response b filename file_size of
             Inr r \<Rightarrow> (r, w')
           | Inl e \<Rightarrow> download_except e w')
      | (Inl e, w') \<Rightarrow> download_except e w')"
  using assms by (simp add: download_def Let_def falsy_def)

subsection \<open>The duration ceiling\<close>

text \<open>
  C1. A video whose reported duration is above the ceiling of 3600 seconds: \<open>get_video_info\<close>
  raises a \<open>ValueError\<close> and returns no metadata, and \<^verbatim>\<open>/api/video-info\<close> answers 400
  with an error body.
\<close>

theorem duration_over_ceiling_rejected:
  assumes "YouTube E (watch_url v) = Inr yt" and "yt_length yt = Inr n"
    and "MAX_VIDEO_DURATION < n"
    and "args_get req (ascii ''video_id'') = Some v" and "v \<noteq> []"
  shows "MAX_VIDEO_DURATION = 3600
    \<and> (\<exists>m. fst (get_video_info E v w) = Inl (ValueError m))
    \<and> status (fst (video_info E req w)) = 400
    \<and> (\<exists>m. body (fst (video_info E req w)) = Json_error m)"
proof -
  note over = get_video_info_over [OF assms(1-3), of w]
  have "video_info E req w =
      (jsonify_error (msg_processing @ msg_duration) 400,
       w\<lparr>fetched := fetched w @ [watch_url v], log := log w @ [log_info_failed @ msg_duration]\<rparr>)"
    by (simp add: video_info_present [OF assms(4,5)] over)
  then show ?thesis
    by (simp add: over jsonify_error_def MAX_VIDEO_DURATION_def)
qed

theorem duration_over_ceiling_rejected_witness:
  "MAX_VIDEO_DURATION < 3601
    \<and> (\<exists>m. fst (get_video_info (demo_env 3601) demo_id w0) = Inl (ValueError m))
    \<and> status (fst (video_info (demo_env 3601) \<lparr>args = [(ascii ''video_id'', demo_id)]\<rparr> w0)) = 400"
proof -
  have 1: "YouTube (demo_env 3601) (watch_url demo_id) = Inr (demo_youtube 3601)"
    by (simp add: demo_env_def demo_YouTube_def)
  have 2: "yt_length (demo_youtube 3601) = Inr 3601"
    by (simp add: demo_youtube_def)
  have 3: "MAX_VIDEO_DURATION < 3601"
    by (simp add: MAX_VIDEO_DURATION_def)
  have 4: "args_get \<lparr>args = [(ascii ''video_id'', demo_id)]\<rparr> (ascii ''video_id'') = Some demo_id"
    by (simp add: args_get_def)
  have 5: "demo_id \<noteq> []"
    by (simp add: demo_id_def ascii_def)
  from duration_over_ceiling_rejected [OF 1 2 3 4 5, of w0] 3 show ?thesis
    by simp
qed

subsection \<open>The concrete video\<close>

lemma demo_YouTube_eq: "YouTube (demo_env n) url = Inr (demo_youtube n)"
  by (simp add: demo_env_def demo_YouTube_def)

lemma demo_no_999: "yt_get_by_itag (demo_youtube n) (ascii ''999'') = Inr None"
  by (simp add: demo_youtube_def demo_get_by_itag_def ascii_def)

lemma demo_id_nonempty: "demo_id \<noteq> []"
  by (simp add: demo_id_def ascii_def)

lemma demo_request_video_id: "args_get (demo_request i) (ascii ''video_id'') = Some demo_id"
  by (simp add: demo_request_def args_get_def)

lemma demo_request_resolution: "args_get (demo_request i) (ascii ''resolution'') = Some i"
  by (simp add: demo_request_def args_get_def ascii_def)

subsection \<open>Re-raised errors\<close>

text \<open>
  C9. A \<open>ValueError\<close> raised inside the \<^verbatim>\<open>try\<close> of \<open>get_video_info\<close> (duration above
  the ceiling) or of \<open>stream_video\<close> (no stream for the handle) is caught by the generic
  handler of the same function, which logs it and raises a \<open>ValueError\<close> whose message is
  the processing-error prefix followed by the original message. The caller sees the
  prefixed message, which differs from the bare one, and the endpoint answers 400 with it.
\<close>
theorem raised_ValueError_is_wrapped:
  "(YouTube E (watch_url v) = Inr yt \<and> yt_length yt = Inr n \<and> MAX_VIDEO_DURATION < n \<longrightarrow>
      fst (get_video_info E v w) = Inl (ValueError (msg_processing @ msg_duration))
      \<and> msg_processing @ msg_duration \<noteq> msg_duration
      \<and> log (snd (get_video_info E v w)) = log w @ [log_info_failed @ msg_duration]
      \<and> (args_get req (ascii ''video_id'') = Some v \<and> v \<noteq> [] \<longrightarrow>
           fst (video_info E req w) = jsonify_error (msg_processing @ msg_duration) 400))
   \<and> (YouTube E (watch_url v) = Inr yt \<and> yt_get_by_itag yt i = Inr None \<longrightarrow>
      fst (stream_video E v i w) = Inl (ValueError (msg_processing @ msg_invalid_resolution))
      \<and> msg_processing @ msg_invalid_resolution \<noteq> msg_invalid_resolution
      \<and> log (snd (stream_video E v i w)) = log w @ [log_stream_failed @ msg_invalid_resolution]
      \<and> (args_get req (ascii ''video_id'') = Some v \<and> v \<noteq> []
           \<and> args_get req (ascii ''resolution'') = Some i \<and> i \<noteq> [] \<longrightarrow>
           fst (download E req w) = jsonify_error (msg_processing @ msg_invalid_resolution) 400))"
proof (intro conjI impI)
  assume a: "YouTube E (watch_url v) = Inr yt \<and> yt_length yt = Inr n \<and> MAX_VIDEO_DURATION < n"
  then have over: "get_video_info E v w =
     (Inl (ValueError (msg_processing @ msg_duration)),
      w\<lparr>fetched := fetched w @ [watch_url v], log := log w @ [log_info_failed @ msg_duration]\<rparr>)"
    by (simp add: get_video_info_over)
  show "fst (get_video_info E v w) = Inl (ValueError (msg_processing @ msg_duration))"
    by (simp add: over)
  show "msg_processing @ msg_duration \<noteq> msg_duration"
    by (rule msg_processing_prefix)
  show "log (snd (get_video_info E v w)) = log w @ [log_info_failed @ msg_duration]"
    by (simp add: over)
  assume "args_get req (ascii ''video_id'') = Some v \<and> v \<noteq> []"
  then show "fst (video_info E req w) = jsonify_error (msg_processing @ msg_duration) 400"
    by (simp add: video_info_present over)
next
  assume a: "YouTube E (watch_url v) = Inr yt \<and> yt_get_by_itag yt i = Inr None"
  then have none: "stream_video E v i w =
     (Inl (ValueError (msg_processing @ msg_invalid_resolution)),
      w\<lparr>fetched := fetched w @ [watch_url v],
        log := log w @ [log_stream_failed @ msg_invalid_resolution]\<rparr>)"
    by (simp add: stream_video_no_stream)
  show "fst (stream_video E v i w) = Inl (ValueError (msg_processing @ msg_invalid_resolution))"
    by (simp add: none)
  show "msg_processing @ msg_invalid_resolution \<noteq> msg_invalid_resolution"
    by (rule msg_processing_prefix)
  show "log (snd (stream_video E v i w)) = log w @ [log_stream_failed @ msg_invalid_resolution]"
    by (simp add: none)
  assume "args_get req (ascii ''video_id'') = Some v \<and> v \<noteq> []
           \<and> args_get req (ascii ''resolution'') = Some i \<and> i \<noteq> []"
  then show "fst (download E req w) = jsonify_error (msg_processing @ msg_invalid_resolution) 400"
    by (simp add: download_present none)
qed

theorem raised_ValueError_is_wrapped_witness:
  "fst (get_video_info (demo_env 3601) demo_id w0) = Inl (ValueError (msg_processing @ msg_duration))
   \<and> fst (video_info (demo_env 3601) (demo_request (ascii ''999'')) w0)
       = jsonify_error (msg_processing @ msg_duration) 400
   \<and> fst (stream_video (demo_env 3601) demo_id (ascii ''999'') w0)
       = Inl (ValueError (msg_processing @ msg_invalid_resolution))
   \<and> fst (download (demo_env 3601) (demo_request (ascii ''999'')) w0)
       = jsonify_error (msg_processing @ msg_invalid_resolution) 400"
proof -
  have 1: "YouTube (demo_env 3601) (watch_url demo_id) = Inr (demo_youtube 3601)"
    by (rule demo_YouTube_eq)
  have 2: "yt_length (demo_youtube 3601) = Inr 3601"
    by (simp add: demo_youtube_def)
  have 3: "MAX_VIDEO_DURATION < 3601"
    by (simp add: MAX_VIDEO_DURATION_def)
  have 4: "ascii ''999'' \<noteq> []"
    by (simp add: ascii_def)
  from raised_ValueError_is_wrapped
    [of "demo_env 3601" demo_id "demo_youtube 3601" 3601 w0 "demo_request (ascii ''999'')" "ascii ''999''"]
    1 2 3 4 demo_no_999 demo_id_nonempty demo_request_video_id demo_request_resolution
  show ?thesis
    by simp
qed

subsection \<open>Unknown stream handles\<close>

lemma open_stream_buffers:
  assumes "buffers (snd (open_stream U yt i w)) \<noteq> buffers w"
  shows "\<exists>s. yt_get_by_itag yt i = Inr (Some s)"
  using assms by (auto simp: open_stream_def Let_def split: sum.splits option.splits)

lemma stream_video_buffers:
  assumes "buffers (snd (stream_video E v i w)) \<noteq> buffers w"
  shows "\<exists>yt s. YouTube E (watch_url v) = Inr yt \<and> yt_get_by_itag yt i = Inr (Some s)"
proof (cases "YouTube E (watch_url v)")
  case (Inl e)
  with assms show ?thesis
    by (simp add: stream_video_def stream_video_try_def stream_video_except_def)
next
  case (Inr yt)
  let ?w = "w\<lparr>fetched := fetched w @ [watch_url v]\<rparr>"
  have "buffers (snd (open_stream (unicode E) yt i ?w)) \<noteq> buffers ?w"
    using assms Inr
    by (auto simp: stream_video_def stream_video_try_def stream_video_except_def
        split: prod.splits sum.splits)
  from open_stream_buffers [OF this] Inr show ?thesis
    by simp
qed

text \<open>
  C2, as the claim states it, at the concrete video: the handle \<^verbatim>\<open>999\<close> matches no
  stream, and \<open>stream_video\<close> does not fail with the bare invalid-resolution message.
\<close>
theorem unknown_itag_counterexample:
  "yt_get_by_itag (demo_youtube 60) (ascii ''999'') = Inr None
   \<and> fst (stream_video (demo_env 60) demo_id (ascii ''999'') w0)
       \<noteq> Inl (ValueError msg_invalid_resolution)"
  by (simp add: stream_video_no_stream [OF demo_YouTube_eq demo_no_999] demo_no_999
      msg_processing_def)

text \<open>
  C2, amended. When the lookup of the handle finds no stream, \<open>stream_video\<close> fails
  with a \<open>ValueError\<close> whose message is the processing-error prefix followed by the
  invalid-resolution message, \<^verbatim>\<open>/api/download\<close> answers 400 with that message, and no
  buffer is created. A buffer is created only when the lookup found a stream.
\<close>
theorem unknown_itag_rejected:
  "(YouTube E (watch_url v) = Inr yt \<and> yt_get_by_itag yt i = Inr None \<longrightarrow>
      fst (stream_video E v i w) = Inl (ValueError (msg_processing @ msg_invalid_resolution))
      \<and> buffers (snd (stream_video E v i w)) = buffers w
      \<and> (args_get req (ascii ''video_id'') = Some v \<and> v \<noteq> []
           \<and> args_get req (ascii ''resolution'') = Some i \<and> i \<noteq> [] \<longrightarrow>
           fst (download E req w) = jsonify_error (msg_processing @ msg_invalid_resolution) 400
           \<and> buffers (snd (download E req w)) = buffers w))
   \<and> (buffers (snd (stream_video E v i w)) \<noteq> buffers w \<longrightarrow>
        (\<exists>yt s. YouTube E (watch_url v) = Inr yt \<and> yt_get_by_itag yt i = Inr (Some s)))"
  by (auto simp: stream_video_no_stream download_present dest: stream_video_buffers)

theorem unknown_itag_rejected_witness:
  "fst (stream_video (demo_env 60) demo_id (ascii ''999'') w0)
      = Inl (ValueError (msg_processing @ msg_invalid_resolution))
   \<and> buffers (snd (stream_video (demo_env 60) demo_id (ascii ''999'') w0)) = buffers w0
   \<and> fst (download (demo_env 60) (demo_request (ascii ''999'')) w0)
      = jsonify_error (msg_processing @ msg_invalid_resolution) 400
   \<and> buffers (snd (download (demo_env 60) (demo_request (ascii ''999'')) w0)) = buffers w0
   \<and> buffers (snd (stream_video (demo_env 60) demo_id (ascii ''22'') w0)) \<noteq> buffers w0
   \<and> (\<exists>yt s. YouTube (demo_env 60) (watch_url demo_id) = Inr yt
          \<and> yt_get_by_itag yt (ascii ''22'') = Inr (Some s))"
proof -
  have 4: "ascii ''999'' \<noteq> []"
    by (simp add: ascii_def)
  have 5: "buffers (snd (stream_video (demo_env 60) demo_id (ascii ''22'') w0)) \<noteq> buffers w0"
    by (simp add: stream_video_def stream_video_try_def open_stream_def demo_YouTube_eq
        demo_youtube_def demo_get_by_itag_def stream_720_def w0_def Let_def)
  from unknown_itag_rejected
    [of "demo_env 60" demo_id "demo_youtube 60" "ascii ''999''" w0 "demo_request (ascii ''999'')"]
    unknown_itag_rejected
    [of "demo_env 60" demo_id "demo_youtube 60" "ascii ''22''" w0 "demo_request (ascii ''999'')"]
    demo_YouTube_eq [of 60 "watch_url demo_id"] 4 5 demo_no_999 [of 60] demo_id_nonempty
    demo_request_video_id demo_request_resolution
  show ?thesis
    by simp
qed

subsection \<open>Empty query parameters\<close>

lemma video_info_fetches:
  assumes "args_get req (ascii ''video_id'') = Some v" and "v \<noteq> []"
  shows "fetched (snd (video_info E req w)) = fetched w @ [watch_url v]"
proof (cases "get_video_info_try E v")
  case (Inl e)
  then show ?thesis
    by (cases e) (simp_all add: video_info_present [OF assms] get_video_info_def Let_def)
next
  case (Inr info)
  then show ?thesis
    by (simp add: video_info_present [OF assms] get_video_info_def Let_def)
qed

text \<open>
  C10. A request whose \<^verbatim>\<open>video_id\<close> is the empty string (on either endpoint), or whose
  \<^verbatim>\<open>resolution\<close> is the empty string (on \<^verbatim>\<open>/api/download\<close>), gets the response of a
  request without that parameter: the 400 missing-parameter response, with the world
  unchanged, so that no URL was handed to the extractor.
\<close>
theorem empty_parameter_is_missing:
  "(args_get req (ascii ''video_id'') = Some [] \<and> args_get req' (ascii ''video_id'') = None \<longrightarrow>
      video_info E req w = (jsonify_error msg_missing_video_id 400, w)
      \<and> video_info E req w = video_info E req' w
      \<and> fetched (snd (video_info E req w)) = fetched w)
   \<and> ((args_get req (ascii ''video_id'') = Some [] \<and> args_get req' (ascii ''video_id'') = None)
       \<or> (args_get req (ascii ''resolution'') = Some [] \<and> args_get req' (ascii ''resolution'') = None) \<longrightarrow>
      download E req w = (jsonify_error msg_missing_params 400, w)
      \<and> download E req w = download E req' w
      \<and> fetched (snd (download E req w)) = fetched w)"
proof (intro conjI impI)
  assume a: "args_get req (ascii ''video_id'') = Some [] \<and> args_get req' (ascii ''video_id'') = None"
  then have "falsy (args_get req (ascii ''video_id''))" and "falsy (args_get req' (ascii ''video_id''))"
    by (simp_all add: falsy_def)
  then have 1: "video_info E req w = (jsonify_error msg_missing_video_id 400, w)"
    and 2: "video_info E req' w = (jsonify_error msg_missing_video_id 400, w)"
    by (simp_all add: video_info_missing)
  show "video_info E req w = (jsonify_error msg_missing_video_id 400, w)"
    by (rule 1)
  show "video_info E req w = video_info E req' w"
    by (simp add: 1 2)
  show "fetched (snd (video_info E req w)) = fetched w"
    by (simp add: 1)
next
  assume "(args_get req (ascii ''video_id'') = Some [] \<and> args_get req' (ascii ''video_id'') = None)
       \<or> (args_get req (ascii ''resolution'') = Some [] \<and> args_get req' (ascii ''resolution'') = None)"
  then have "falsy (args_get req (ascii ''video_id'')) \<or> falsy (args_get req (ascii ''resolution''))"
    and "falsy (args_get req' (ascii ''video_id'')) \<or> falsy (args_get req' (ascii ''resolution''))"
    by (auto simp: falsy_def)
  then have 1: "download E req w = (jsonify_error msg_missing_params 400, w)"
    and 2: "download E req' w = (jsonify_error msg_missing_params 400, w)"
    by (simp_all add: download_missing)
  show "download E req w = (jsonify_error msg_missing_params 400, w)"
    by (rule 1)
  show "download E req w = download E req' w"
    by (simp add: 1 2)
  show "fetched (snd (download E req w)) = fetched w"
    by (simp add: 1)
qed

theorem empty_parameter_is_missing_witness:
  "video_info (demo_env 60) \<lparr>args = [(ascii ''video_id'', [])]\<rparr> w0
      = (jsonify_error msg_missing_video_id 400, w0)
   \<and> video_info (demo_env 60) \<lparr>args = [(ascii ''video_id'', [])]\<rparr> w0
      = video_info (demo_env 60) \<lparr>args = []\<rparr> w0
   \<and> download (demo_env 60) \<lparr>args = [(ascii ''video_id'', [])]\<rparr> w0
      = (jsonify_error msg_missing_params 400, w0)
   \<and> download (demo_env 60) (demo_request []) w0 = (jsonify_error msg_missing_params 400, w0)
   \<and> download (demo_env 60) (demo_request []) w0 = download (demo_env 60) \<lparr>args = []\<rparr> w0
   \<and> fetched (snd (download (demo_env 60) (demo_request []) w0)) = fetched w0
   \<and> fetched (snd (video_info (demo_env 60) (demo_request (ascii ''22'')) w0))
      = fetched w0 @ [watch_url demo_id]"
proof -
  have 1: "args_get \<lparr>args = [(ascii ''video_id'', [])]\<rparr> (ascii ''video_id'') = Some []"
    by (simp add: args_get_def)
  have 2: "args_get \<lparr>args = []\<rparr> (ascii ''video_id'') = None"
    by (simp add: args_get_def)
  have 3: "args_get \<lparr>args = []\<rparr> (ascii ''resolution'') = None"
    by (simp add: args_get_def)
  have 4: "args_get (demo_request []) (ascii ''resolution'') = Some []"
    by (rule demo_request_resolution)
  from empty_parameter_is_missing
    [of "\<lparr>args = [(ascii ''video_id'', [])]\<rparr>" "\<lparr>args = []\<rparr>" "demo_env 60" w0]
    empty_parameter_is_missing [of "demo_request []" "\<lparr>args = []\<rparr>" "demo_env 60" w0]
    1 2 3 4 video_info_fetches [OF demo_request_video_id demo_id_nonempty]
  show ?thesis
    by auto
qed

subsection \<open>Error mapping of the metadata endpoint\<close>

lemma video_info_is_with: "video_info E req w = video_info_with (get_video_info E) req w"
  by (simp add: video_info_def video_info_with_def)

lemma video_info_with_present:
  assumes "args_get req (ascii ''video_id'') = Some v" and "v \<noteq> []"
  shows "video_info_with callee req w =
     (case callee v w of
        (Inr info, w') \<Rightarrow> (jsonify_info info, w')
      | (Inl e, w') \<Rightarrow> video_info_except e w')"
  using assms by (simp add: video_info_with_def Let_def falsy_def)

lemma video_info_with_missing:
  assumes "falsy (args_get req (ascii ''video_id''))"
  shows "video_info_with callee req w = (jsonify_error msg_missing_video_id 400, w)"
  using assms by (simp add: video_info_with_def Let_def)

lemma video_info_except_other:
  assumes "\<not> is_ValueError e"
  shows "video_info_except e w =
    (jsonify_error msg_internal 500, w\<lparr>log := log w @ [log_api_error @ str_exn e]\<rparr>)"
  using assms by (cases e) simp_all

lemma video_info_with_outcomes:
  "(falsy (args_get req (ascii ''video_id''))
      \<and> video_info_with callee req w = (jsonify_error msg_missing_video_id 400, w))
   \<or> (\<exists>v info w'. args_get req (ascii ''video_id'') = Some v \<and> callee v w = (Inr info, w')
        \<and> video_info_with callee req w = (jsonify_info info, w'))
   \<or> (\<exists>v m w'. args_get req (ascii ''video_id'') = Some v \<and> callee v w = (Inl (ValueError m), w')
        \<and> video_info_with callee req w = (jsonify_error m 400, w'))
   \<or> (\<exists>v e w'. args_get req (ascii ''video_id'') = Some v \<and> callee v w = (Inl e, w')
        \<and> \<not> is_ValueError e
        \<and> video_info_with callee req w =
            (jsonify_error msg_internal 500, w'\<lparr>log := log w' @ [log_api_error @ str_exn e]\<rparr>))"
proof (cases "falsy (args_get req (ascii ''video_id''))")
  case True
  then show ?thesis
    by (simp add: video_info_with_missing)
next
  case False
  then obtain v where v: "args_get req (ascii ''video_id'') = Some v" "v \<noteq> []"
    by (auto simp: falsy_def split: option.splits)
  obtain r w' where c: "callee v w = (r, w')"
    by (cases "callee v w")
  show ?thesis
  proof (cases r)
    case (Inr info)
    with v c show ?thesis
      by (simp add: video_info_with_present)
  next
    case (Inl e)
    show ?thesis
    proof (cases "is_ValueError e")
      case True
      then obtain m where "e = ValueError m"
        by (cases e) simp_all
      with v c Inl show ?thesis
        by (simp add: video_info_with_present)
    next
      case False
      with v c Inl show ?thesis
        by (simp add: video_info_with_present video_info_except_other)
    qed
  qed
qed

lemma video_info_status: "status (fst (video_info E req w)) \<in> {200, 400}"
proof (cases "falsy (args_get req (ascii ''video_id''))")
  case True
  then show ?thesis
    by (simp add: video_info_missing jsonify_error_def)
next
  case False
  then obtain v where v: "args_get req (ascii ''video_id'') = Some v" "v \<noteq> []"
    by (auto simp: falsy_def split: option.splits)
  obtain r w' where c: "get_video_info E v w = (r, w')"
    by (cases "get_video_info E v w")
  show ?thesis
  proof (cases r)
    case (Inr info)
    with v c show ?thesis
      by (simp add: video_info_present jsonify_info_def)
  next
    case (Inl e)
    with c have "fst (get_video_info E v w) = Inl e"
      by simp
    then obtain m where "e = ValueError m"
      by (blast dest: get_video_info_raises_ValueError)
    with v c Inl show ?thesis
      by (simp add: video_info_present jsonify_error_def)
  qed
qed

text \<open>
  C8. \<^verbatim>\<open>/api/video-info\<close>: without \<^verbatim>\<open>video_id\<close> the answer is 400 with the
  missing-video-id message as its error; a \<open>ValueError\<close> from \<open>get_video_info\<close> gives 400
  with that error's message. The endpoint is the handler \<open>video_info_with\<close> around
  \<open>get_video_info\<close>; for any callee, an exception of the callee that is not a
  \<open>ValueError\<close> gives 500 with the generic message, and its detail goes to the log only;
  and every answer of the handler other than 200 is one of these three.
\<close>

theorem video_info_error_mapping:
  "(args_get req (ascii ''video_id'') = None \<longrightarrow>
      status (fst (video_info E req w)) = 400
      \<and> body (fst (video_info E req w)) = Json_error msg_missing_video_id)
   \<and> (args_get req (ascii ''video_id'') = Some v \<and> v \<noteq> []
        \<and> fst (get_video_info E v w) = Inl (ValueError m) \<longrightarrow>
      status (fst (video_info E req w)) = 400
      \<and> body (fst (video_info E req w)) = Json_error m)
   \<and> video_info E req w = video_info_with (get_video_info E) req w
   \<and> (args_get req (ascii ''video_id'') = Some v \<and> v \<noteq> []
        \<and> callee v w = (Inl e, w') \<and> \<not> is_ValueError e \<longrightarrow>
      status (fst (video_info_with callee req w)) = 500
      \<and> body (fst (video_info_with callee req w)) = Json_error msg_internal
      \<and> log (snd (video_info_with callee req w)) = log w' @ [log_api_error @ str_exn e])
   \<and> (status (fst (video_info_with callee req w)) \<noteq> 200 \<longrightarrow>
        (falsy (args_get req (ascii ''video_id''))
           \<and> status (fst (video_info_with callee req w)) = 400
           \<and> body (fst (video_info_with callee req w)) = Json_error msg_missing_video_id)
        \<or> (\<exists>u m' w''. args_get req (ascii ''video_id'') = Some u
              \<and> callee u w = (Inl (ValueError m'), w'')
              \<and> status (fst (video_info_with callee req w)) = 400
              \<and> body (fst (video_info_with callee req w)) = Json_error m')
        \<or> (\<exists>u e' w''. args_get req (ascii ''video_id'') = Some u
              \<and> callee u w = (Inl e', w'') \<and> \<not> is_ValueError e'
              \<and> status (fst (video_info_with callee req w)) = 500
              \<and> body (fst (video_info_with callee req w)) = Json_error msg_internal))"
proof (intro conjI impI)
  assume "args_get req (ascii ''video_id'') = None"
  then have "falsy (args_get req (ascii ''video_id''))"
    by (simp add: falsy_def)
  then show "status (fst (video_info E req w)) = 400"
    and "body (fst (video_info E req w)) = Json_error msg_missing_video_id"
    by (simp_all add: video_info_missing jsonify_error_def)
next
  assume "args_get req (ascii ''video_id'') = Some v \<and> v \<noteq> []
        \<and> fst (get_video_info E v w) = Inl (ValueError m)"
  then show "status (fst (video_info E req w)) = 400"
    and "body (fst (video_info E req w)) = Json_error m"
    by (cases "get_video_info E v w"; simp add: video_info_present jsonify_error_def)+
next
  show "video_info E req w = video_info_with (get_video_info E) req w"
    by (rule video_info_is_with)
next
  assume "args_get req (ascii ''video_id'') = Some v \<and> v \<noteq> []
        \<and> callee v w = (Inl e, w') \<and> \<not> is_ValueError e"
  then have "video_info_with callee req w =
      (jsonify_error msg_internal 500, w'\<lparr>log := log w' @ [log_api_error @ str_exn e]\<rparr>)"
    by (simp add: video_info_with_present video_info_except_other)
  then show "status (fst (video_info_with callee req w)) = 500"
    and "body (fst (video_info_with callee req w)) = Json_error msg_internal"
    and "log (snd (video_info_with callee req w)) = log w' @ [log_api_error @ str_exn e]"
    by (simp_all add: jsonify_error_def)
next
  assume n: "status (fst (video_info_with callee req w)) \<noteq> 200"
  from video_info_with_outcomes [of req callee w] n
  show "(falsy (args_get req (ascii ''video_id''))
           \<and> status (fst (video_info_with callee req w)) = 400
           \<and> body (fst (video_info_with callee req w)) = Json_error msg_missing_video_id)
        \<or> (\<exists>u m' w''. args_get req (ascii ''video_id'') = Some u
              \<and> callee u w = (Inl (ValueError m'), w'')
              \<and> status (fst (video_info_with callee req w)) = 400
              \<and> body (fst (video_info_with callee req w)) = Json_error m')
        \<or> (\<exists>u e' w''. args_get req (ascii ''video_id'') = Some u
              \<and> callee u w = (Inl e', w'') \<and> \<not> is_ValueError e'
              \<and> status (fst (video_info_with callee req w)) = 500
              \<and> body (fst (video_info_with callee req w)) = Json_error msg_internal)"
    by (elim disjE exE conjE) (auto simp: jsonify_error_def jsonify_info_def)
qed

theorem video_info_error_mapping_witness:
  "status (fst (video_info (demo_env 3601) \<lparr>args = []\<rparr> w0)) = 400
   \<and> body (fst (video_info (demo_env 3601) \<lparr>args = []\<rparr> w0)) = Json_error msg_missing_video_id
   \<and> status (fst (video_info (demo_env 3601) (demo_request (ascii ''22'')) w0)) = 400
   \<and> body (fst (video_info (demo_env 3601) (demo_request (ascii ''22'')) w0))
       = Json_error (msg_processing @ msg_duration)
   \<and> status (fst (video_info_with (raising (OtherException (ascii ''boom'')))
        (demo_request (ascii ''22'')) w0)) = 500
   \<and> body (fst (video_info_with (raising (OtherException (ascii ''boom'')))
        (demo_request (ascii ''22'')) w0)) = Json_error msg_internal
   \<and> log (snd (video_info_with (raising (OtherException (ascii ''boom'')))
        (demo_request (ascii ''22'')) w0)) = [log_api_error @ ascii ''boom'']"
proof -
  have 1: "args_get \<lparr>args = []\<rparr> (ascii ''video_id'') = None"
    by (simp add: args_get_def)
  have 2: "fst (get_video_info (demo_env 3601) demo_id w0)
      = Inl (ValueError (msg_processing @ msg_duration))"
    by (simp add: get_video_info_over [OF demo_YouTube_eq] demo_youtube_def MAX_VIDEO_DURATION_def)
  have 3: "\<not> is_ValueError (OtherException (ascii ''boom''))"
    by simp
  have 4: "log w0 = []"
    by (simp add: w0_def)
  have 5: "raising (OtherException (ascii ''boom'')) demo_id w0
      = (Inl (OtherException (ascii ''boom'')), w0)"
    by (simp add: raising_def)
  note missing = video_info_error_mapping
    [of "\<lparr>args = []\<rparr>" "demo_env 3601" w0 demo_id "msg_processing @ msg_duration"
      "raising (OtherException (ascii ''boom''))" "OtherException (ascii ''boom'')" w0]
  note present = video_info_error_mapping
    [of "demo_request (ascii ''22'')" "demo_env 3601" w0 demo_id "msg_processing @ msg_duration"
      "raising (OtherException (ascii ''boom''))" "OtherException (ascii ''boom'')" w0]
  from missing 1 have a: "status (fst (video_info (demo_env 3601) \<lparr>args = []\<rparr> w0)) = 400
      \<and> body (fst (video_info (demo_env 3601) \<lparr>args = []\<rparr> w0)) = Json_error msg_missing_video_id"
    by blast
  from present 2 demo_request_video_id demo_id_nonempty
  have b: "status (fst (video_info (demo_env 3601) (demo_request (ascii ''22'')) w0)) = 400
      \<and> body (fst (video_info (demo_env 3601) (demo_request (ascii ''22'')) w0))
          = Json_error (msg_processing @ msg_duration)"
    by blast
  from present 3 5 demo_request_video_id demo_id_nonempty
  have c: "status (fst (video_info_with (raising (OtherException (ascii ''boom'')))
        (demo_request (ascii ''22'')) w0)) = 500
      \<and> body (fst (video_info_with (raising (OtherException (ascii ''boom'')))
        (demo_request (ascii ''22'')) w0)) = Json_error msg_internal
      \<and> log (snd (video_info_with (raising (OtherException (ascii ''boom'')))
        (demo_request (ascii ''22'')) w0)) = log w0 @ [log_api_error @ str_exn (OtherException (ascii ''boom''))]"
    by blast
  from a b c 4 show ?thesis
    by simp
qed

subsection \<open>File names\<close>

lemma safe_title_filter: "safe_title U t = filter (is_safe_char U) t"
  by (induction t) simp_all

text \<open>
  C6, as the claim states it: the title \<^verbatim>\<open>Foo: Bar/Baz\<close> at \<^verbatim>\<open>720p\<close> does not give
  \<^verbatim>\<open>Foo Bar Baz_720p.mp4\<close>. The slash is removed and no space takes its place.
\<close>
theorem filename_counterexample:
  "filename_of ascii_ucd (ascii ''Foo: Bar/Baz'') (Some (ascii ''720p''))
     \<noteq> ascii ''Foo Bar Baz_720p.mp4''"
  by (simp add: filename_of_def ascii_def char_defs str_opt_def)

text \<open>
  C6, amended. The file name is the title without the characters outside word characters,
  hyphen, underscore, period and space, followed by an underscore, the resolution and
  \<^verbatim>\<open>.mp4\<close>; the title \<^verbatim>\<open>Foo: Bar/Baz\<close> at \<^verbatim>\<open>720p\<close> gives \<^verbatim>\<open>Foo BarBaz_720p.mp4\<close>.
\<close>
theorem filename_derivation:
  "filename_of U t r = filter (is_safe_char U) t @ ascii ''_'' @ str_opt r @ ascii ''.mp4''
   \<and> filename_of U (ascii ''Foo: Bar/Baz'') (Some (ascii ''720p'')) = ascii ''Foo BarBaz_720p.mp4''"
  by (simp add: filename_of_def safe_title_filter) (simp add: ascii_def char_defs str_opt_def)

subsection \<open>The generator\<close>

lemma chunk_size_pos: "0 < chunk_size"
  by (simp add: chunk_size_def)

lemma gen_next_end:
  assumes "gen_status g \<noteq> Finished" and "length (buf (byte_stream g)) \<le> pos (byte_stream g)"
  shows "gen_next g =
     (None, g\<lparr>byte_stream := (byte_stream g)\<lparr>close_calls := Suc (close_calls (byte_stream g))\<rparr>,
              gen_status := Finished\<rparr>)"
  using assms by (simp add: gen_next_def Let_def)

lemma gen_next_chunk:
  assumes "gen_status g \<noteq> Finished" and "pos (byte_stream g) < length (buf (byte_stream g))"
  shows "gen_next g =
     (Some (take chunk_size (drop (pos (byte_stream g)) (buf (byte_stream g)))),
      g\<lparr>byte_stream := (byte_stream g)\<lparr>pos := pos (byte_stream g)
           + min chunk_size (length (buf (byte_stream g)) - pos (byte_stream g))\<rparr>,
        gen_status := Suspended\<rparr>)"
  using assms chunk_size_pos by (simp add: gen_next_def Let_def min_def)

lemma drain_end:
  assumes "gen_status g \<noteq> Finished" and "length (buf (byte_stream g)) \<le> pos (byte_stream g)"
  shows "drain g =
     ([], g\<lparr>byte_stream := (byte_stream g)\<lparr>close_calls := Suc (close_calls (byte_stream g))\<rparr>,
            gen_status := Finished\<rparr>)"
  by (subst drain.simps) (simp add: gen_next_end [OF assms])

lemma drain_chunk:
  assumes "gen_status g \<noteq> Finished" and "pos (byte_stream g) < length (buf (byte_stream g))"
  shows "drain g =
     (take chunk_size (drop (pos (byte_stream g)) (buf (byte_stream g)))
        # fst (drain (snd (gen_next g))),
      snd (drain (snd (gen_next g))))"
  by (subst drain.simps) (simp add: gen_next_chunk [OF assms] split: prod.splits)

lemma drain_induct [consumes 1, case_names End Chunk]:
  assumes "gen_status g \<noteq> Finished"
    and "\<And>g. gen_status g \<noteq> Finished \<Longrightarrow> length (buf (byte_stream g)) \<le> pos (byte_stream g) \<Longrightarrow> P g"
    and "\<And>g. gen_status g \<noteq> Finished \<Longrightarrow> pos (byte_stream g) < length (buf (byte_stream g))
           \<Longrightarrow> P (snd (gen_next g)) \<Longrightarrow> P g"
  shows "P g"
  using assms(1)
proof (induction g rule: drain.induct)
  case (1 g)
  show ?case
  proof (cases "pos (byte_stream g) < length (buf (byte_stream g))")
    case True
    have n: "gen_next g = (Some (take chunk_size (drop (pos (byte_stream g)) (buf (byte_stream g)))),
        snd (gen_next g))"
      by (simp add: gen_next_chunk [OF "1.prems" True])
    have "gen_status (snd (gen_next g)) \<noteq> Finished"
      by (simp add: gen_next_chunk [OF "1.prems" True])
    with "1.IH" [OF n [symmetric] refl] have "P (snd (gen_next g))"
      by simp
    with assms(3) "1.prems" True show ?thesis
      by blast
  next
    case False
    with assms(2) "1.prems" show ?thesis
      by simp
  qed
qed

lemma drain_concat:
  assumes "gen_status g \<noteq> Finished"
  shows "concat (fst (drain g)) = drop (pos (byte_stream g)) (buf (byte_stream g))"
  using assms
proof (induction rule: drain_induct)
  case (End g)
  then show ?case
    by (simp add: drain_end)
next
  case (Chunk g)
  let ?b = "byte_stream g"
  have a: "concat (fst (drain g)) =
      take chunk_size (drop (pos ?b) (buf ?b)) @ concat (fst (drain (snd (gen_next g))))"
    by (simp add: drain_chunk [OF Chunk(1,2)])
  have b: "concat (fst (drain (snd (gen_next g)))) =
      drop (pos ?b + min chunk_size (length (buf ?b) - pos ?b)) (buf ?b)"
    using Chunk(3) by (simp add: gen_next_chunk [OF Chunk(1,2)])
  have c: "drop (pos ?b + min chunk_size (length (buf ?b) - pos ?b)) (buf ?b) =
      drop chunk_size (drop (pos ?b) (buf ?b))"
    by (simp add: min_def add.commute)
  show ?case
    unfolding a b c by (rule append_take_drop_id)
qed

lemma drain_chunk_lengths:
  assumes "gen_status g \<noteq> Finished"
  shows "list_all (\<lambda>c. c \<noteq> [] \<and> length c \<le> chunk_size) (fst (drain g))"
  using assms
proof (induction rule: drain_induct)
  case (End g)
  then show ?case
    by (simp add: drain_end)
next
  case (Chunk g)
  then show ?case
    using chunk_size_pos by (simp add: drain_chunk [OF Chunk(1,2)])
qed

lemma drain_full_chunks:
  assumes "gen_status g \<noteq> Finished"
  shows "list_all (\<lambda>c. length c = chunk_size) (butlast (fst (drain g)))"
  using assms
proof (induction rule: drain_induct)
  case (End g)
  then show ?case
    by (simp add: drain_end)
next
  case (Chunk g)
  let ?b = "byte_stream g"
  let ?g' = "snd (gen_next g)"
  show ?case
  proof (cases "fst (drain ?g') = []")
    case True
    then show ?thesis
      by (simp add: drain_chunk [OF Chunk(1,2)])
  next
    case False
    have st: "gen_status ?g' \<noteq> Finished"
      by (simp add: gen_next_chunk [OF Chunk(1,2)])
    have "pos (byte_stream ?g') < length (buf (byte_stream ?g'))"
    proof (rule ccontr)
      assume "\<not> pos (byte_stream ?g') < length (buf (byte_stream ?g'))"
      then have "fst (drain ?g') = []"
        by (simp add: drain_end [OF st])
      with False show False
        by simp
    qed
    then have "chunk_size \<le> length (buf ?b) - pos ?b"
      by (simp add: gen_next_chunk [OF Chunk(1,2)] min_def split: if_splits)
    with False Chunk(3) show ?thesis
      by (simp add: drain_chunk [OF Chunk(1,2)])
  qed
qed

lemma drain_closes:
  assumes "gen_status g \<noteq> Finished"
  shows "close_calls (byte_stream (snd (drain g))) = Suc (close_calls (byte_stream g))
    \<and> gen_status (snd (drain g)) = Finished"
  using assms
proof (induction rule: drain_induct)
  case (End g)
  then show ?case
    by (simp add: drain_end)
next
  case (Chunk g)
  then show ?case
    by (simp add: drain_chunk [OF Chunk(1,2)] gen_next_chunk [OF Chunk(1,2)])
qed

subsection \<open>The download endpoint\<close>

lemma stream_video_success:
  assumes "YouTube E (watch_url v) = Inr yt" and "yt_get_by_itag yt i = Inr (Some s)"
    and "yt_title yt = Inr t" and "content s = Inr bytes" and "filesize s = Inr n"
  shows "stream_video E v i w =
     (Inr (\<lparr>buf = bytes, pos = 0, close_calls = 0\<rparr>, filename_of (unicode E) t (resolution s), n),
      w\<lparr>fetched := fetched w @ [watch_url v], buffers := Suc (buffers w)\<rparr>)"
  using assms
  by (simp add: stream_video_def stream_video_try_def open_stream_def Let_def)

lemma open_stream_Inr:
  assumes "fst (open_stream U yt i w) = Inr (b, f, n)"
  shows "\<exists>s t. yt_get_by_itag yt i = Inr (Some s) \<and> yt_title yt = Inr t
    \<and> content s = Inr (buf b) \<and> filesize s = Inr n \<and> f = filename_of U t (resolution s)
    \<and> pos b = 0 \<and> close_calls b = 0"
  using assms
  by (auto simp: open_stream_def Let_def split: sum.splits option.splits)

lemma stream_video_Inr:
  assumes "fst (stream_video E v i w) = Inr (b, f, n)"
  shows "\<exists>yt s t. YouTube E (watch_url v) = Inr yt \<and> yt_get_by_itag yt i = Inr (Some s)
    \<and> yt_title yt = Inr t \<and> content s = Inr (buf b) \<and> filesize s = Inr n
    \<and> f = filename_of (unicode E) t (resolution s) \<and> pos b = 0 \<and> close_calls b = 0"
proof (cases "YouTube E (watch_url v)")
  case (Inl e)
  with assms show ?thesis
    by (simp add: stream_video_def stream_video_try_def stream_video_except_def)
next
  case (Inr yt)
  let ?w = "w\<lparr>fetched := fetched w @ [watch_url v]\<rparr>"
  have "fst (open_stream (unicode E) yt i ?w) = Inr (b, f, n)"
    using assms Inr
    by (auto simp: stream_video_def stream_video_try_def stream_video_except_def
        split: prod.splits sum.splits)
  from open_stream_Inr [OF this] Inr show ?thesis
    by simp
qed

lemma str_nat_digits: "set (str_nat n) \<subseteq> {ch CHR ''0'' .. ch CHR ''9''}"
proof (induction n rule: str_nat.induct)
  case (1 n)
  show ?case
  proof (cases "n < 10")
    case True
    then show ?thesis
      by (subst str_nat.simps) simp
  next
    case False
    have "n mod 10 < 10"
      by simp
    then have "ch CHR ''0'' + n mod 10 \<in> {ch CHR ''0'' .. ch CHR ''9''}"
      by simp
    with False "1.IH" show ?thesis
      by (subst str_nat.simps) simp
  qed
qed

lemma str_int_no_line_break: "\<not> has_line_break (str_int n)"
  using str_nat_digits [of "nat n"] str_nat_digits [of "nat (- n)"]
  by (auto simp: has_line_break_def str_int_def)

lemma safe_title_no_line_break: "\<not> has_line_break (safe_title U t)"
  by (induction t) (auto simp: has_line_break_def char_defs)

lemma filename_line_break:
  "has_line_break (filename_of U t r) = has_line_break (str_opt r)"
  using safe_title_no_line_break [of U t]
  by (auto simp: has_line_break_def filename_of_def ascii_def)

lemma attachment_line_break:
  "has_line_break (ascii ''attachment; filename='' @ f) = has_line_break f"
  by (auto simp: has_line_break_def ascii_def)

lemma download_response_ok:
  assumes "\<not> has_line_break f"
  shows "download_response b f n =
     Inr \<lparr>status = 200,
          headers =
            [(ascii ''Content-Type'', ascii ''video/mp4''),
             (ascii ''Content-Disposition'', ascii ''attachment; filename='' @ f),
             (ascii ''Content-Length'', str_int n),
             (ascii ''Accept-Ranges'', ascii ''bytes'')],
          body = Streamed \<lparr>byte_stream = b, gen_status = Created\<rparr>\<rparr>"
proof -
  have "\<not> has_line_break (ascii ''bytes'')"
    by (simp add: has_line_break_def ascii_def)
  with assms show ?thesis
    by (simp add: download_response_def set_header_def bind_exn_def attachment_line_break
        str_int_no_line_break) (simp add: ascii_def)
qed

lemma download_response_refused:
  assumes "has_line_break f"
  shows "download_response b f n = Inl (ValueError msg_header_newline)"
  using assms
  by (simp add: download_response_def set_header_def bind_exn_def attachment_line_break)

lemma download_status_200:
  assumes "status (fst (download E req w)) = 200"
  shows "\<exists>v i b f n. args_get req (ascii ''video_id'') = Some v \<and> v \<noteq> []
    \<and> args_get req (ascii ''resolution'') = Some i \<and> i \<noteq> []
    \<and> fst (stream_video E v i w) = Inr (b, f, n) \<and> \<not> has_line_break f"
proof (cases "falsy (args_get req (ascii ''video_id'')) \<or> falsy (args_get req (ascii ''resolution''))")
  case True
  with assms show ?thesis
    by (simp add: download_missing jsonify_error_def)
next
  case False
  then obtain v i where vi: "args_get req (ascii ''video_id'') = Some v" "v \<noteq> []"
    "args_get req (ascii ''resolution'') = Some i" "i \<noteq> []"
    by (auto simp: falsy_def split: option.splits)
  show ?thesis
  proof (cases "stream_video E v i w")
    case (Pair r w')
    show ?thesis
    proof (cases r)
      case (Inl e)
      with assms Pair show ?thesis
        by (cases e) (simp_all add: download_present [OF vi] jsonify_error_def)
    next
      case (Inr x)
      obtain b f n where x: "x = (b, f, n)"
        by (cases x) auto
      have "\<not> has_line_break f"
      proof
        assume "has_line_break f"
        with assms Pair Inr x show False
          by (simp add: download_present [OF vi] download_response_refused jsonify_error_def)
      qed
      with Pair Inr x vi show ?thesis
        by auto
    qed
  qed
qed

text \<open>
  C7. A successful \<^verbatim>\<open>/api/download\<close> has status 200, the headers \<^verbatim>\<open>Content-Type: video/mp4\<close>,
  \<^verbatim>\<open>Content-Disposition: attachment; filename=\<close> with the derived file name,
  \<^verbatim>\<open>Content-Length\<close> with the declared file size of the stream, and
  \<^verbatim>\<open>Accept-Ranges: bytes\<close>. Read to the end, its body is the buffer cut into chunks of
  1024 * 1024 bytes: no chunk is empty or longer, and every chunk but the last has that
  length. Success means that \<open>stream_video\<close> returned and that the file name has no line
  break, which the header object would refuse; every response with status 200 is such a
  success. A request without \<^verbatim>\<open>video_id\<close> or without \<^verbatim>\<open>resolution\<close> is answered 400.
\<close>
theorem download_success_response:
  "(args_get req (ascii ''video_id'') = Some v \<and> v \<noteq> []
      \<and> args_get req (ascii ''resolution'') = Some i \<and> i \<noteq> []
      \<and> fst (stream_video E v i w) = Inr (b, f, n) \<and> \<not> has_line_break f \<longrightarrow>
        status (fst (download E req w)) = 200
        \<and> headers (fst (download E req w)) =
             [(ascii ''Content-Type'', ascii ''video/mp4''),
              (ascii ''Content-Disposition'', ascii ''attachment; filename='' @ f),
              (ascii ''Content-Length'', str_int n),
              (ascii ''Accept-Ranges'', ascii ''bytes'')]
        \<and> (\<exists>yt s t. YouTube E (watch_url v) = Inr yt \<and> yt_get_by_itag yt i = Inr (Some s)
              \<and> yt_title yt = Inr t \<and> filesize s = Inr n \<and> content s = Inr (buf b)
              \<and> f = filename_of (unicode E) t (resolution s))
        \<and> (\<exists>g. body (fst (download E req w)) = Streamed g
              \<and> concat (fst (drain g)) = buf b
              \<and> list_all (\<lambda>c. c \<noteq> [] \<and> length c \<le> 1024 * 1024) (fst (drain g))
              \<and> list_all (\<lambda>c. length c = 1024 * 1024) (butlast (fst (drain g)))))
   \<and> (status (fst (download E req w)) = 200 \<longrightarrow>
        (\<exists>v i b f n. args_get req (ascii ''video_id'') = Some v \<and> v \<noteq> []
           \<and> args_get req (ascii ''resolution'') = Some i \<and> i \<noteq> []
           \<and> fst (stream_video E v i w) = Inr (b, f, n) \<and> \<not> has_line_break f))
   \<and> (args_get req (ascii ''video_id'') = None \<or> args_get req (ascii ''resolution'') = None \<longrightarrow>
        status (fst (download E req w)) = 400)"
proof (intro conjI impI)
  assume a: "args_get req (ascii ''video_id'') = Some v \<and> v \<noteq> []
      \<and> args_get req (ascii ''resolution'') = Some i \<and> i \<noteq> []
      \<and> fst (stream_video E v i w) = Inr (b, f, n) \<and> \<not> has_line_break f"
  then have d: "fst (download E req w) =
      \<lparr>status = 200,
       headers =
         [(ascii ''Content-Type'', ascii ''video/mp4''),
          (ascii ''Content-Disposition'', ascii ''attachment; filename='' @ f),
          (ascii ''Content-Length'', str_int n),
          (ascii ''Accept-Ranges'', ascii ''bytes'')],
       body = Streamed \<lparr>byte_stream = b, gen_status = Created\<rparr>\<rparr>"
    by (cases "stream_video E v i w") (simp add: download_present download_response_ok)
  show "status (fst (download E req w)) = 200"
    by (simp add: d)
  show "headers (fst (download E req w)) =
             [(ascii ''Content-Type'', ascii ''video/mp4''),
              (ascii ''Content-Disposition'', ascii ''attachment; filename='' @ f),
              (ascii ''Content-Length'', str_int n),
              (ascii ''Accept-Ranges'', ascii ''bytes'')]"
    by (simp add: d)
  from a stream_video_Inr [of E v i w b f n]
  obtain yt s t where s: "YouTube E (watch_url v) = Inr yt" "yt_get_by_itag yt i = Inr (Some s)"
    "yt_title yt = Inr t" "content s = Inr (buf b)" "filesize s = Inr n"
    "f = filename_of (unicode E) t (resolution s)" and b: "pos b = 0" "close_calls b = 0"
    by blast
  from s show "\<exists>yt s t. YouTube E (watch_url v) = Inr yt \<and> yt_get_by_itag yt i = Inr (Some s)
              \<and> yt_title yt = Inr t \<and> filesize s = Inr n \<and> content s = Inr (buf b)
              \<and> f = filename_of (unicode E) t (resolution s)"
    by blast
  let ?g = "\<lparr>byte_stream = b, gen_status = Created\<rparr>"
  have st: "gen_status ?g \<noteq> Finished"
    by simp
  have "body (fst (download E req w)) = Streamed ?g"
    by (simp add: d)
  moreover have "concat (fst (drain ?g)) = buf b"
    using drain_concat [OF st] b by simp
  moreover have "list_all (\<lambda>c. c \<noteq> [] \<and> length c \<le> 1024 * 1024) (fst (drain ?g))"
    using drain_chunk_lengths [OF st] by (simp add: chunk_size_def)
  moreover have "list_all (\<lambda>c. length c = 1024 * 1024) (butlast (fst (drain ?g)))"
    using drain_full_chunks [OF st] by (simp add: chunk_size_def)
  ultimately show "\<exists>g. body (fst (download E req w)) = Streamed g
              \<and> concat (fst (drain g)) = buf b
              \<and> list_all (\<lambda>c. c \<noteq> [] \<and> length c \<le> 1024 * 1024) (fst (drain g))
              \<and> list_all (\<lambda>c. length c = 1024 * 1024) (butlast (fst (drain g)))"
    by blast
next
  assume "status (fst (download E req w)) = 200"
  then show "\<exists>v i b f n. args_get req (ascii ''video_id'') = Some v \<and> v \<noteq> []
           \<and> args_get req (ascii ''resolution'') = Some i \<and> i \<noteq> []
           \<and> fst (stream_video E v i w) = Inr (b, f, n) \<and> \<not> has_line_break f"
    by (rule download_status_200)
next
  assume "args_get req (ascii ''video_id'') = None \<or> args_get req (ascii ''resolution'') = None"
  then have "falsy (args_get req (ascii ''video_id'')) \<or> falsy (args_get req (ascii ''resolution''))"
    by (auto simp: falsy_def)
  then show "status (fst (download E req w)) = 400"
    by (simp add: download_missing jsonify_error_def)
qed

lemma demo_stream_video_22:
  "stream_video (demo_env n) demo_id (ascii ''22'') w0 =
     (Inr (\<lparr>buf = ''abc'', pos = 0, close_calls = 0\<rparr>, ascii ''Foo BarBaz_720p.mp4'', 3),
      w0\<lparr>fetched := fetched w0 @ [watch_url demo_id], buffers := Suc (buffers w0)\<rparr>)"
proof -
  have f: "filename_of (unicode (demo_env n)) (ascii ''Foo: Bar/Baz'') (resolution stream_720)
      = ascii ''Foo BarBaz_720p.mp4''"
    by (simp add: filename_of_def stream_720_def ascii_def char_defs str_opt_def)
  have "stream_video (demo_env n) demo_id (ascii ''22'') w0 =
     (Inr (\<lparr>buf = ''abc'', pos = 0, close_calls = 0\<rparr>,
        filename_of (unicode (demo_env n)) (ascii ''Foo: Bar/Baz'') (resolution stream_720), 3),
      w0\<lparr>fetched := fetched w0 @ [watch_url demo_id], buffers := Suc (buffers w0)\<rparr>)"
    by (rule stream_video_success [OF demo_YouTube_eq])
      (simp_all add: demo_youtube_def demo_get_by_itag_def stream_720_def)
  with f show ?thesis
    by simp
qed

lemma demo_filename_no_line_break: "\<not> has_line_break (ascii ''Foo BarBaz_720p.mp4'')"
  by (simp add: has_line_break_def ascii_def)

lemma demo_drain: "drain demo_generator =
  ([''abc''], \<lparr>byte_stream = \<lparr>buf = ''abc'', pos = 3, close_calls = 1\<rparr>, gen_status = Finished\<rparr>)"
  by (simp add: demo_generator_def drain.simps gen_next_def chunk_size_def Let_def)

theorem download_success_response_witness:
  "status (fst (download (demo_env 60) (demo_request (ascii ''22'')) w0)) = 200
   \<and> headers (fst (download (demo_env 60) (demo_request (ascii ''22'')) w0)) =
        [(ascii ''Content-Type'', ascii ''video/mp4''),
         (ascii ''Content-Disposition'', ascii ''attachment; filename=Foo BarBaz_720p.mp4''),
         (ascii ''Content-Length'', ascii ''3''),
         (ascii ''Accept-Ranges'', ascii ''bytes'')]
   \<and> body (fst (download (demo_env 60) (demo_request (ascii ''22'')) w0)) = Streamed demo_generator
   \<and> fst (drain demo_generator) = [''abc'']
   \<and> status (fst (download (demo_env 60) \<lparr>args = []\<rparr> w0)) = 400"
proof -
  have 1: "ascii ''22'' \<noteq> []"
    by (simp add: ascii_def)
  have 2: "fst (stream_video (demo_env 60) demo_id (ascii ''22'') w0)
      = Inr (\<lparr>buf = ''abc'', pos = 0, close_calls = 0\<rparr>, ascii ''Foo BarBaz_720p.mp4'', 3)"
    by (simp add: demo_stream_video_22)
  have 3: "args_get \<lparr>args = []\<rparr> (ascii ''video_id'') = None"
    by (simp add: args_get_def)
  have 4: "str_int 3 = ascii ''3''"
    by (simp add: str_int_def str_nat.simps ascii_def)
  have 5: "body (fst (download (demo_env 60) (demo_request (ascii ''22'')) w0)) = Streamed demo_generator"
    by (simp add: download_present [OF demo_request_video_id demo_id_nonempty demo_request_resolution 1]
        demo_stream_video_22 download_response_ok [OF demo_filename_no_line_break]
        demo_generator_def)
  from download_success_response
    [of "demo_request (ascii ''22'')" demo_id "ascii ''22''" "demo_env 60" w0
      "\<lparr>buf = ''abc'', pos = 0, close_calls = 0\<rparr>" "ascii ''Foo BarBaz_720p.mp4''" 3]
    download_success_response
    [of "\<lparr>args = []\<rparr>" demo_id "ascii ''22''" "demo_env 60" w0
      "\<lparr>buf = ''abc'', pos = 0, close_calls = 0\<rparr>" "ascii ''Foo BarBaz_720p.mp4''" 3]
    1 2 3 4 5 demo_request_video_id demo_request_resolution demo_id_nonempty demo_drain
    demo_filename_no_line_break
  show ?thesis
    by (simp add: ascii_def)
qed

subsection \<open>Release of the byte source\<close>

text \<open>
  C3, on the code: the download of stream 22 of the concrete video. When the server has
  read one chunk and closes the generator, or closes it before reading, \<^verbatim>\<open>close()\<close> was
  never called on the buffer; it is called once only when the generator is read to its
  end.
\<close>
theorem abort_leaves_source_open:
  "body (fst (download (demo_env 60) (demo_request (ascii ''22'')) w0)) = Streamed demo_generator
   \<and> fst (transmit 1 demo_generator) = [''abc'']
   \<and> gen_status (snd (transmit 1 demo_generator)) = Finished
   \<and> close_calls (byte_stream (snd (transmit 1 demo_generator))) = 0
   \<and> close_calls (byte_stream (snd (transmit 0 demo_generator))) = 0
   \<and> close_calls (byte_stream (snd (transmit 2 demo_generator))) = 1"
proof -
  have 1: "ascii ''22'' \<noteq> []"
    by (simp add: ascii_def)
  have b: "body (fst (download (demo_env 60) (demo_request (ascii ''22'')) w0)) = Streamed demo_generator"
    by (simp add: download_present [OF demo_request_video_id demo_id_nonempty demo_request_resolution 1]
        demo_stream_video_22 download_response_ok [OF demo_filename_no_line_break]
        demo_generator_def)
  have t1: "transmit 1 demo_generator =
      ([''abc''], \<lparr>byte_stream = \<lparr>buf = ''abc'', pos = 3, close_calls = 0\<rparr>, gen_status = Finished\<rparr>)"
    by (simp add: demo_generator_def gen_next_def gen_close_def chunk_size_def Let_def)
  have t0: "transmit 0 demo_generator =
      ([], \<lparr>byte_stream = \<lparr>buf = ''abc'', pos = 0, close_calls = 0\<rparr>, gen_status = Finished\<rparr>)"
    by (simp add: demo_generator_def gen_close_def)
  have t2: "transmit 2 demo_generator =
      ([''abc''], \<lparr>byte_stream = \<lparr>buf = ''abc'', pos = 3, close_calls = 1\<rparr>, gen_status = Finished\<rparr>)"
    by (simp add: demo_generator_def gen_next_def gen_close_def chunk_size_def Let_def
        numeral_2_eq_2)
  from b show ?thesis
    unfolding t0 t1 t2 by simp
qed

subsection \<open>The descriptor list\<close>


lemma get_video_info_fst:
  "fst (get_video_info E v w) = fst (get_video_info E v w')"
proof (cases "get_video_info_try E v")
  case (Inl e)
  then show ?thesis
    by (cases e) (simp_all add: get_video_info_def Let_def)
next
  case (Inr x)
  then show ?thesis
    by (simp add: get_video_info_def Let_def)
qed































subsection \<open>The URL validator\<close>

lemma strip_prefix_iff: "strip_prefix p s = Some r \<longleftrightarrow> s = p @ r"
  by (auto simp: strip_prefix_def prefix_def)

lemma match_scheme_shape:
  assumes "match_scheme s = Some r"
  shows "s = ascii ''http://'' @ r \<or> s = ascii ''https://'' @ r"
  using assms
  by (auto simp: match_scheme_def strip_prefix_iff ascii_def split: option.splits)

lemma match_host_shape:
  assumes "match_host s = Some d"
  shows "d \<noteq> [] \<and> ch CHR ''/'' \<notin> set d
    \<and> (\<exists>post. s = d @ post \<and> (post = [] \<or> hd post = ch CHR ''/''))"
proof -
  let ?P = "\<lambda>c. c \<noteq> ch CHR ''/''"
  from assms have d: "d = takeWhile ?P s" "d \<noteq> []"
    by (auto simp: match_host_def Let_def split: if_splits)
  have "ch CHR ''/'' \<notin> set d"
    unfolding d(1) by (auto dest: set_takeWhileD)
  moreover have "s = d @ dropWhile ?P s"
    unfolding d(1) by simp
  moreover have "dropWhile ?P s = [] \<or> hd (dropWhile ?P s) = ch CHR ''/''"
    using hd_dropWhile [of ?P s] by blast
  ultimately show ?thesis
    using d(2) by blast
qed

lemma match_domain_at_shape:
  assumes "match_domain_at s = Some d"
  shows "d \<noteq> [] \<and> ch CHR ''/'' \<notin> set d
    \<and> (\<exists>sch w post. s = sch @ w @ d @ post
          \<and> (sch = ascii ''http://'' \<or> sch = ascii ''https://'')
          \<and> (w = [] \<or> w = ascii ''www.'')
          \<and> (post = [] \<or> hd post = ch CHR ''/''))"
proof -
  from assms obtain r where r: "match_scheme s = Some r"
    by (auto simp: match_domain_at_def split: option.splits)
  then have sch: "s = ascii ''http://'' @ r \<or> s = ascii ''https://'' @ r"
    by (rule match_scheme_shape)
  from assms r consider "match_host r = Some d"
    | r' where "strip_prefix (ascii ''www.'') r = Some r'" "match_host r' = Some d"
    by (auto simp: match_domain_at_def split: option.splits)
  then show ?thesis
  proof cases
    case 1
    from match_host_shape [OF 1] obtain post where
      "d \<noteq> []" "ch CHR ''/'' \<notin> set d" "r = d @ post" "post = [] \<or> hd post = ch CHR ''/''"
      by blast
    with sch have "s = ascii ''http://'' @ [] @ d @ post \<or> s = ascii ''https://'' @ [] @ d @ post"
      by simp
    with \<open>d \<noteq> []\<close> \<open>ch CHR ''/'' \<notin> set d\<close> \<open>post = [] \<or> hd post = ch CHR ''/''\<close>
    show ?thesis
      by blast
  next
    case 2
    from match_host_shape [OF 2(2)] obtain post where
      "d \<noteq> []" "ch CHR ''/'' \<notin> set d" "r' = d @ post" "post = [] \<or> hd post = ch CHR ''/''"
      by blast
    with sch 2(1) have "s = ascii ''http://'' @ ascii ''www.'' @ d @ post
        \<or> s = ascii ''https://'' @ ascii ''www.'' @ d @ post"
      by (simp add: strip_prefix_iff)
    with \<open>d \<noteq> []\<close> \<open>ch CHR ''/'' \<notin> set d\<close> \<open>post = [] \<or> hd post = ch CHR ''/''\<close>
    show ?thesis
      by blast
  qed
qed

lemma re_search_Some:
  assumes "re_search m url = Some r"
  shows "\<exists>pre s. url = pre @ s \<and> m s = Some r"
  using assms
proof (induction url)
  case Nil
  then show ?case
    by simp
next
  case (Cons c u)
  show ?case
  proof (cases "m (c # u)")
    case None
    with Cons obtain pre s where "u = pre @ s" "m s = Some r"
      by auto
    then have "c # u = (c # pre) @ s \<and> m s = Some r"
      by simp
    then show ?thesis
      by blast
  next
    case (Some x)
    with Cons.prems have "c # u = [] @ (c # u) \<and> m (c # u) = Some r"
      by simp
    then show ?thesis
      by blast
  qed
qed

lemma extracted_domain_shape:
  assumes "re_search match_domain_at url = Some d"
  shows "d \<noteq> [] \<and> ch CHR ''/'' \<notin> set d
    \<and> (\<exists>pre sch w post. url = pre @ sch @ w @ d @ post
          \<and> (sch = ascii ''http://'' \<or> sch = ascii ''https://'')
          \<and> (w = [] \<or> w = ascii ''www.'')
          \<and> (post = [] \<or> hd post = ch CHR ''/''))"
proof -
  from re_search_Some [OF assms] obtain pre s where s: "url = pre @ s" "match_domain_at s = Some d"
    by blast
  from match_domain_at_shape [OF s(2)] s(1) show ?thesis
    by blast
qed

lemma re_search_iff: "re_search m url \<noteq> None \<longleftrightarrow> (\<exists>pre s. url = pre @ s \<and> m s \<noteq> None)"
proof (induction url)
  case Nil
  then show ?case
    by simp
next
  case (Cons c u)
  show ?case
  proof (cases "m (c # u)")
    case None
    then have "re_search m (c # u) \<noteq> None \<longleftrightarrow> (\<exists>pre s. u = pre @ s \<and> m s \<noteq> None)"
      using Cons.IH by simp
    also have "\<dots> \<longleftrightarrow> (\<exists>pre s. c # u = pre @ s \<and> m s \<noteq> None)"
      using None by (auto simp: Cons_eq_append_conv)
    finally show ?thesis .
  next
    case (Some r)
    then have "c # u = [] @ (c # u) \<and> m (c # u) \<noteq> None"
      by simp
    then have "\<exists>pre s. c # u = pre @ s \<and> m s \<noteq> None"
      by blast
    with Some show ?thesis
      by simp
  qed
qed

lemma strip_prefix_None_iff: "strip_prefix p s = None \<longleftrightarrow> \<not> prefix p s"
  by (simp add: strip_prefix_def)

lemma match_id_chars_iff:
  "match_id_chars s = Some i \<longleftrightarrow> (\<exists>post. s = i @ post \<and> length i = 11 \<and> list_all is_id_char i)"
proof
  assume "match_id_chars s = Some i"
  then have "11 \<le> length s" "list_all is_id_char (take 11 s)" "i = take 11 s"
    by (auto simp: match_id_chars_def split: if_splits)
  then have "s = i @ drop 11 s \<and> length i = 11 \<and> list_all is_id_char i"
    by simp
  then show "\<exists>post. s = i @ post \<and> length i = 11 \<and> list_all is_id_char i" ..
next
  assume "\<exists>post. s = i @ post \<and> length i = 11 \<and> list_all is_id_char i"
  then show "match_id_chars s = Some i"
    by (auto simp: match_id_chars_def)
qed

lemma match_video_id_at_iff:
  "match_video_id_at s \<noteq> None \<longleftrightarrow>
     (\<exists>i post. (s = ascii ''v='' @ i @ post \<or> s = ascii ''/'' @ i @ post)
        \<and> length i = 11 \<and> list_all is_id_char i)"
    (is "?l \<longleftrightarrow> ?r")
proof
  assume ?l
  then obtain i where i: "match_video_id_at s = Some i"
    by blast
  then consider r where "strip_prefix (ascii ''v='') s = Some r" "match_id_chars r = Some i"
    | r where "strip_prefix (ascii ''/'') s = Some r" "match_id_chars r = Some i"
    by (auto simp: match_video_id_at_def split: option.splits)
  then show ?r
  proof cases
    case 1
    then show ?thesis
      by (auto simp: strip_prefix_iff match_id_chars_iff)
  next
    case 2
    then show ?thesis
      by (auto simp: strip_prefix_iff match_id_chars_iff)
  qed
next
  assume ?r
  then obtain i post where s: "s = ascii ''v='' @ i @ post \<or> s = ascii ''/'' @ i @ post"
    and i: "length i = 11" "list_all is_id_char i"
    by blast
  from i have m: "match_id_chars (i @ post) = Some i"
    by (auto simp: match_id_chars_iff)
  from s show ?l
  proof
    assume "s = ascii ''v='' @ i @ post"
    then have "strip_prefix (ascii ''v='') s = Some (i @ post)"
      by (simp add: strip_prefix_iff)
    with m show ?thesis
      by (simp add: match_video_id_at_def)
  next
    assume "s = ascii ''/'' @ i @ post"
    then have "strip_prefix (ascii ''/'') s = Some (i @ post)"
      by (simp add: strip_prefix_iff)
    with m show ?thesis
      by (simp add: match_video_id_at_def split: option.splits)
  qed
qed

lemma search_video_id_iff:
  "re_search match_video_id_at url \<noteq> None \<longleftrightarrow>
     (\<exists>pre i post. (url = pre @ ascii ''v='' @ i @ post \<or> url = pre @ ascii ''/'' @ i @ post)
        \<and> length i = 11 \<and> list_all is_id_char i)"
  unfolding re_search_iff match_video_id_at_iff by blast

lemma is_valid_youtube_url_try_iff:
  "(\<exists>e. is_valid_youtube_url_try url = Inl e) \<longleftrightarrow> re_search match_domain_at url = None"
  by (auto simp: is_valid_youtube_url_try_def split: option.splits)

text \<open>
  C4. \<open>is_valid_youtube_url\<close> is true exactly when the domain extracted from the URL is in
  the allow-list \<^verbatim>\<open>{youtube.com, youtu.be}\<close> or ends with one of its entries, and the URL
  contains \<^verbatim>\<open>v=\<close> or \<^verbatim>\<open>/\<close> followed by 11 characters of \<^verbatim>\<open>[0-9A-Za-z_-]\<close>. The body
  raises exactly when no domain can be extracted, and the result is then false. The three
  URLs of the claim give true, false and false.
\<close>
theorem is_valid_youtube_url_iff:
  "(is_valid_youtube_url url \<longleftrightarrow>
      (\<exists>d. re_search match_domain_at url = Some d
         \<and> (d \<in> ALLOWED_DOMAINS \<or> (\<exists>a \<in> ALLOWED_DOMAINS. suffix a d)))
      \<and> (\<exists>pre i post.
           (url = pre @ ascii ''v='' @ i @ post \<or> url = pre @ ascii ''/'' @ i @ post)
           \<and> length i = 11 \<and> list_all is_id_char i))
   \<and> ((\<exists>e. is_valid_youtube_url_try url = Inl e) \<longleftrightarrow> re_search match_domain_at url = None)
   \<and> ((\<exists>e. is_valid_youtube_url_try url = Inl e) \<longrightarrow> \<not> is_valid_youtube_url url)
   \<and> ALLOWED_DOMAINS = {ascii ''youtube.com'', ascii ''youtu.be''}
   \<and> is_valid_youtube_url (ascii ''https://www.youtube.com/watch?v=dQw4w9WgXcQ'')
   \<and> \<not> is_valid_youtube_url (ascii ''https://vimeo.com/12345'')
   \<and> \<not> is_valid_youtube_url (ascii ''https://youtu.be/short'')"
proof (intro conjI)
  show "is_valid_youtube_url url \<longleftrightarrow>
      (\<exists>d. re_search match_domain_at url = Some d
         \<and> (d \<in> ALLOWED_DOMAINS \<or> (\<exists>a \<in> ALLOWED_DOMAINS. suffix a d)))
      \<and> (\<exists>pre i post.
           (url = pre @ ascii ''v='' @ i @ post \<or> url = pre @ ascii ''/'' @ i @ post)
           \<and> length i = 11 \<and> list_all is_id_char i)"
    unfolding search_video_id_iff [symmetric]
    by (cases "re_search match_domain_at url")
      (auto simp: is_valid_youtube_url_def is_valid_youtube_url_try_def)
  show "(\<exists>e. is_valid_youtube_url_try url = Inl e) \<longleftrightarrow> re_search match_domain_at url = None"
    by (rule is_valid_youtube_url_try_iff)
  show "(\<exists>e. is_valid_youtube_url_try url = Inl e) \<longrightarrow> \<not> is_valid_youtube_url url"
    by (auto simp: is_valid_youtube_url_def)
  show "ALLOWED_DOMAINS = {ascii ''youtube.com'', ascii ''youtu.be''}"
    by (rule ALLOWED_DOMAINS_def)
  show "is_valid_youtube_url (ascii ''https://www.youtube.com/watch?v=dQw4w9WgXcQ'')"
    by code_simp
  show "\<not> is_valid_youtube_url (ascii ''https://vimeo.com/12345'')"
    by code_simp
  show "\<not> is_valid_youtube_url (ascii ''https://youtu.be/short'')"
    by code_simp
qed

theorem is_valid_youtube_url_iff_witness:
  "re_search match_domain_at (ascii ''https://youtu.be/dQw4w9WgXcQ'') = Some (ascii ''youtu.be'')
   \<and> ascii ''youtu.be'' \<in> ALLOWED_DOMAINS
   \<and> is_valid_youtube_url (ascii ''https://youtu.be/dQw4w9WgXcQ'')
   \<and> re_search match_domain_at (ascii ''youtu.be/dQw4w9WgXcQ'') = None
   \<and> is_valid_youtube_url_try (ascii ''youtu.be/dQw4w9WgXcQ'') = Inl (OtherException msg_no_group)
   \<and> \<not> is_valid_youtube_url (ascii ''youtu.be/dQw4w9WgXcQ'')"
proof -
  have 1: "re_search match_domain_at (ascii ''https://youtu.be/dQw4w9WgXcQ'') = Some (ascii ''youtu.be'')"
    by code_simp
  have 2: "ascii ''youtu.be'' \<in> ALLOWED_DOMAINS"
    by (simp add: ALLOWED_DOMAINS_def)
  have "ascii ''https://youtu.be/dQw4w9WgXcQ'' = ascii ''https://youtu.be'' @ ascii ''/'' @ ascii ''dQw4w9WgXcQ'' @ []
      \<and> length (ascii ''dQw4w9WgXcQ'') = 11 \<and> list_all is_id_char (ascii ''dQw4w9WgXcQ'')"
    by (simp add: ascii_def is_id_char_def is_digit_def is_AZ_def is_az_def)
  then have 3: "\<exists>pre i post.
      (ascii ''https://youtu.be/dQw4w9WgXcQ'' = pre @ ascii ''v='' @ i @ post
        \<or> ascii ''https://youtu.be/dQw4w9WgXcQ'' = pre @ ascii ''/'' @ i @ post)
      \<and> length i = 11 \<and> list_all is_id_char i"
    by blast
  have 4: "re_search match_domain_at (ascii ''youtu.be/dQw4w9WgXcQ'') = None"
    by code_simp
  then have 5: "is_valid_youtube_url_try (ascii ''youtu.be/dQw4w9WgXcQ'') = Inl (OtherException msg_no_group)"
    by (simp add: is_valid_youtube_url_try_def)
  from is_valid_youtube_url_iff [of "ascii ''https://youtu.be/dQw4w9WgXcQ''"]
    is_valid_youtube_url_iff [of "ascii ''youtu.be/dQw4w9WgXcQ''"] 1 2 3 4 5
  show ?thesis
    by blast
qed

end
